theory Spec2Isabelle
  imports Main "HOL-Library.Word" "HOL-Library.While_Combinator"
begin

unbundle bit_operations_syntax

section \<open>Data model (private.h, libliftoff\_rpi.h)\<close>

text \<open>
  Fixed-width unsigned fields (\<open>uint32_t\<close>, \<open>uint64_t\<close>) are words. A C \<open>int\<close> that
  only stores and compares values (zpos, error codes, scores, priorities) is an \<open>int\<close>;
  every conversion from a 64-bit property value to \<open>int\<close> goes through \<open>int_of_u64\<close>,
  which truncates to 32 bits and reads the result as two's complement.
\<close>

type_synonym u32 = "32 word"
type_synonym u64 = "64 word"

definition int_of_u64 :: "u64 \<Rightarrow> int" where
  "int_of_u64 v = sint (ucast v :: 32 word)"

definition wrap_int :: "int \<Rightarrow> int" where
  "wrap_int i = sint (word_of_int i :: 32 word)"

abbreviation (input) INT_MAX :: int where "INT_MAX \<equiv> 2147483647"
abbreviation (input) INT_MIN :: int where "INT_MIN \<equiv> - 2147483648"

abbreviation (input) EINTR :: int where "EINTR \<equiv> 4"
abbreviation (input) EAGAIN :: int where "EAGAIN \<equiv> 11"
abbreviation (input) ENOMEM :: int where "ENOMEM \<equiv> 12"
abbreviation (input) EACCES :: int where "EACCES \<equiv> 13"
abbreviation (input) EEXIST :: int where "EEXIST \<equiv> 17"
abbreviation (input) EINVAL :: int where "EINVAL \<equiv> 22"
abbreviation (input) ENOSPC :: int where "ENOSPC \<equiv> 28"
abbreviation (input) ERANGE :: int where "ERANGE \<equiv> 34"

text \<open>\<open>enum liftoff_rpi_property_name\<close>; the struct field and the API take it as \<open>int\<close>.\<close>

abbreviation (input) LIFTOFF_RPI_PROP_TYPE :: int where "LIFTOFF_RPI_PROP_TYPE \<equiv> 1"
abbreviation (input) LIFTOFF_RPI_PROP_FB_ID :: int where "LIFTOFF_RPI_PROP_FB_ID \<equiv> 2"
abbreviation (input) LIFTOFF_RPI_PROP_CRTC_ID :: int where "LIFTOFF_RPI_PROP_CRTC_ID \<equiv> 3"
abbreviation (input) LIFTOFF_RPI_PROP_CRTC_X :: int where "LIFTOFF_RPI_PROP_CRTC_X \<equiv> 4"
abbreviation (input) LIFTOFF_RPI_PROP_CRTC_Y :: int where "LIFTOFF_RPI_PROP_CRTC_Y \<equiv> 5"
abbreviation (input) LIFTOFF_RPI_PROP_CRTC_W :: int where "LIFTOFF_RPI_PROP_CRTC_W \<equiv> 6"
abbreviation (input) LIFTOFF_RPI_PROP_CRTC_H :: int where "LIFTOFF_RPI_PROP_CRTC_H \<equiv> 7"
abbreviation (input) LIFTOFF_RPI_PROP_SRC_X :: int where "LIFTOFF_RPI_PROP_SRC_X \<equiv> 8"
abbreviation (input) LIFTOFF_RPI_PROP_SRC_Y :: int where "LIFTOFF_RPI_PROP_SRC_Y \<equiv> 9"
abbreviation (input) LIFTOFF_RPI_PROP_SRC_W :: int where "LIFTOFF_RPI_PROP_SRC_W \<equiv> 10"
abbreviation (input) LIFTOFF_RPI_PROP_SRC_H :: int where "LIFTOFF_RPI_PROP_SRC_H \<equiv> 11"
abbreviation (input) LIFTOFF_RPI_PROP_ZPOS :: int where "LIFTOFF_RPI_PROP_ZPOS \<equiv> 12"
abbreviation (input) LIFTOFF_RPI_PROP_ALPHA :: int where "LIFTOFF_RPI_PROP_ALPHA \<equiv> 13"
abbreviation (input) LIFTOFF_RPI_PROP_ROTATION :: int where "LIFTOFF_RPI_PROP_ROTATION \<equiv> 14"
abbreviation (input) LIFTOFF_RPI_PROP_SCALING_FILTER :: int where "LIFTOFF_RPI_PROP_SCALING_FILTER \<equiv> 15"
abbreviation (input) LIFTOFF_RPI_PROP_PIXEL_BLEND_MODE :: int where "LIFTOFF_RPI_PROP_PIXEL_BLEND_MODE \<equiv> 16"
abbreviation (input) LIFTOFF_RPI_PROP_FB_DAMAGE_CLIPS :: int where "LIFTOFF_RPI_PROP_FB_DAMAGE_CLIPS \<equiv> 17"
abbreviation (input) LIFTOFF_RPI_PROP_IN_FENCE_FD :: int where "LIFTOFF_RPI_PROP_IN_FENCE_FD \<equiv> 18"
abbreviation (input) LIFTOFF_RPI_PROP_IN_FORMATS :: int where "LIFTOFF_RPI_PROP_IN_FORMATS \<equiv> 19"

text \<open>
  libdrm's \<open>drmModePropertyRes\<close>: the metadata of one DRM property. \<open>dprop_values\<close> are
  the \<open>count_values\<close> entries of \<open>values\<close>, \<open>dprop_enums\<close> the \<open>value\<close> fields of the
  \<open>count_enums\<close> entries of \<open>enums\<close>.
\<close>

record drmModePropertyRes =
  dprop_id :: u32
  dprop_flags :: u32
  dprop_name :: string
  dprop_values :: "u64 list"
  dprop_enums :: "u64 list"

text \<open>\<open>struct liftoff_rpi_property\<close>; \<open>prop_dprop\<close> is \<open>None\<close> for the NULL pointer.\<close>

record liftoff_rpi_property =
  prop_index :: int
  prop_id :: u32
  prop_dprop :: "drmModePropertyRes option"
  prop_value :: u64
  prop_prev_value :: u64

text \<open>libdrm's \<open>drmModeFB2\<close>.\<close>

record drmModeFB2 =
  fb_id :: u32
  fb_width :: u32
  fb_height :: u32
  fb_pixel_format :: u32
  fb_modifier :: u64
  fb_flags :: u32
  fb_handles :: "u32 list"
  fb_pitches :: "u32 list"
  fb_offsets :: "u32 list"

definition zero_fb_info :: drmModeFB2 where
  "zero_fb_info = \<lparr> fb_id = 0, fb_width = 0, fb_height = 0, fb_pixel_format = 0,
     fb_modifier = 0, fb_flags = 0, fb_handles = [0, 0, 0, 0],
     fb_pitches = [0, 0, 0, 0], fb_offsets = [0, 0, 0, 0] \<rparr>"

text \<open>
  \<open>struct liftoff_rpi_layer\<close>. Pointers are handles: \<open>layer_output\<close> is the handle of
  the owning output, \<open>layer_plane\<close> the id of the bound plane (\<open>None\<close> for NULL; plane ids
  are unique within a device, see \<open>liftoff_rpi_plane_create\<close>). \<open>layer_props\<close> is
  \<open>props[0 .. props_len)\<close>. The separately allocated \<open>candidate_planes\<close> array lives in
  the store \<open>cand\<close> of the state below.
\<close>

record liftoff_rpi_layer =
  layer_output :: nat
  layer_plane :: "u32 option"
  layer_props :: "liftoff_rpi_property list"
  current_priority :: int
  pending_priority :: int
  force_comp :: bool
  changed :: bool
  fb_info :: drmModeFB2
  prev_fb_info :: drmModeFB2

text \<open>
  The \<open>IN_FORMATS\<close> blob (\<open>struct drm_format_modifier_blob\<close>): the format array and the
  array of \<open>struct drm_format_modifier\<close> entries.
\<close>

record drm_format_modifier =
  dfm_formats :: u64
  dfm_offset :: u32
  dfm_modifier :: u64

record drm_format_modifier_blob =
  blob_formats :: "u32 list"
  blob_modifiers :: "drm_format_modifier list"

text \<open>
  \<open>struct liftoff_rpi_plane\<close>; \<open>plane_layer\<close> is the handle of the bound layer,
  \<open>plane_props\<close> is \<open>props[0 .. props_len)\<close>.
\<close>

record liftoff_rpi_plane =
  plane_layer :: "nat option"
  plane_props :: "liftoff_rpi_property list"
  in_formats_blob :: "drm_format_modifier_blob option"
  plane_id :: u32
  plane_type :: u32
  possible_crtcs :: u32
  plane_zpos :: int

abbreviation (input) DRM_PLANE_TYPE_OVERLAY :: u32 where "DRM_PLANE_TYPE_OVERLAY \<equiv> 0"
abbreviation (input) DRM_PLANE_TYPE_PRIMARY :: u32 where "DRM_PLANE_TYPE_PRIMARY \<equiv> 1"
abbreviation (input) DRM_PLANE_TYPE_CURSOR :: u32 where "DRM_PLANE_TYPE_CURSOR \<equiv> 2"

text \<open>\<open>struct liftoff_rpi_output\<close>: \<open>out_layers\<close> is the intrusive list of layer handles, in list order.\<close>

record liftoff_rpi_output =
  out_layers :: "nat list"
  comp_layer :: "nat option"
  crtc_id :: u32
  crtc_index :: nat
  alloc_reused_counter :: int
  layers_changed :: bool

text \<open>\<open>struct liftoff_rpi_device\<close>: \<open>planes\<close> is the plane list in list order.\<close>

record liftoff_rpi_device =
  planes :: "liftoff_rpi_plane list"
  outputs :: "nat list"
  crtcs :: "u32 list"
  planes_cap :: nat
  test_commit_counter :: int
  page_flip_counter :: int

text \<open>The whole library state: one device, and the stores of its outputs and layers.\<close>

record liftoff =
  dev :: liftoff_rpi_device
  outs :: "nat \<Rightarrow> liftoff_rpi_output"
  lays :: "nat \<Rightarrow> liftoff_rpi_layer"
  cand :: "nat \<Rightarrow> u32 list"

section \<open>layer.c\<close>

definition layer_property_get :: "liftoff_rpi_layer \<Rightarrow> int \<Rightarrow> liftoff_rpi_property option" where
  "layer_property_get layer prop = find (\<lambda>p. prop_index p = prop) (layer_props layer)"

text \<open>
  The index a linear search with \<open>break\<close> at the first hit stops at (\<open>None\<close>: no hit).
\<close>

fun first_index :: "('a \<Rightarrow> bool) \<Rightarrow> 'a list \<Rightarrow> nat option" where
  "first_index P [] = None"
| "first_index P (x # xs) = (if P x then Some 0 else map_option Suc (first_index P xs))"

text \<open>The position of the entry \<open>layer_property_get\<close> returns a pointer to.\<close>

definition property_position :: "liftoff_rpi_property list \<Rightarrow> int \<Rightarrow> nat option" where
  "property_position ps prop = first_index (\<lambda>p. prop_index p = prop) ps"

definition layer_fb_get :: "liftoff_rpi_layer \<Rightarrow> bool" where
  "layer_fb_get layer =
     (case layer_property_get layer LIFTOFF_RPI_PROP_FB_ID of
        None \<Rightarrow> False | Some fb \<Rightarrow> prop_value fb \<noteq> 0)"

definition layer_visible_get :: "liftoff_rpi_layer \<Rightarrow> bool" where
  "layer_visible_get layer =
     (case layer_property_get layer LIFTOFF_RPI_PROP_ALPHA of
        Some prop \<Rightarrow>
          if prop_value prop = 0 then False
          else if force_comp layer then True
          else (case layer_property_get layer LIFTOFF_RPI_PROP_FB_ID of
                  None \<Rightarrow> False | Some fb \<Rightarrow> prop_value fb \<noteq> 0)
      | None \<Rightarrow>
          if force_comp layer then True
          else (case layer_property_get layer LIFTOFF_RPI_PROP_FB_ID of
                  None \<Rightarrow> False | Some fb \<Rightarrow> prop_value fb \<noteq> 0))"

record liftoff_rpi_rect =
  rect_x :: int
  rect_y :: int
  rect_w :: int
  rect_h :: int

definition layer_rect_get :: "liftoff_rpi_layer \<Rightarrow> liftoff_rpi_rect" where
  "layer_rect_get layer =
     (let coord = (\<lambda>i. case layer_property_get layer i of
                          None \<Rightarrow> 0 | Some p \<Rightarrow> int_of_u64 (prop_value p))
      in \<lparr> rect_x = coord LIFTOFF_RPI_PROP_CRTC_X, rect_y = coord LIFTOFF_RPI_PROP_CRTC_Y,
           rect_w = coord LIFTOFF_RPI_PROP_CRTC_W, rect_h = coord LIFTOFF_RPI_PROP_CRTC_H \<rparr>)"

text \<open>The sums are \<open>int\<close> additions; they are written with two's complement wrap-around.\<close>

definition layer_intersects :: "liftoff_rpi_layer \<Rightarrow> liftoff_rpi_layer \<Rightarrow> bool" where
  "layer_intersects a b =
     (if \<not> layer_visible_get a \<or> \<not> layer_visible_get b then False
      else let ra = layer_rect_get a; rb = layer_rect_get b
           in rect_x ra < wrap_int (rect_x rb + rect_w rb) \<and>
              rect_y ra < wrap_int (rect_y rb + rect_h rb) \<and>
              wrap_int (rect_x ra + rect_w ra) > rect_x rb \<and>
              wrap_int (rect_y ra + rect_h ra) > rect_y rb)"

definition layer_clean :: "liftoff_rpi_layer \<Rightarrow> liftoff_rpi_layer" where
  "layer_clean layer =
     layer\<lparr> changed := False, prev_fb_info := fb_info layer,
            layer_props := map (\<lambda>p. p\<lparr> prop_prev_value := prop_value p \<rparr>) (layer_props layer) \<rparr>"

definition layer_priority_update :: "liftoff_rpi_layer \<Rightarrow> bool \<Rightarrow> liftoff_rpi_layer" where
  "layer_priority_update layer current =
     (let layer1 =
            (case layer_property_get layer LIFTOFF_RPI_PROP_FB_ID of
               Some prop \<Rightarrow>
                 if prop_prev_value prop \<noteq> prop_value prop
                 then layer\<lparr> pending_priority := wrap_int (pending_priority layer + 1) \<rparr>
                 else layer
             | None \<Rightarrow> layer)
      in if current
         then layer1\<lparr> current_priority := pending_priority layer1, pending_priority := 0 \<rparr>
         else layer1)"

text \<open>
  \<open>liftoff_rpi_layer_property_set\<close>. \<open>realloc_ok\<close> says whether the \<open>realloc\<close> of the
  property array succeeds; it is consulted only when a property is added.
\<close>

definition liftoff_rpi_layer_property_set ::
  "bool \<Rightarrow> liftoff_rpi_layer \<Rightarrow> int \<Rightarrow> u64 \<Rightarrow> int \<times> liftoff_rpi_layer" where
  "liftoff_rpi_layer_property_set realloc_ok layer property v =
     (if property = LIFTOFF_RPI_PROP_CRTC_ID then (- EINVAL, layer)
      else
        let found = property_position (layer_props layer) property
        in if found = None \<and> \<not> realloc_ok then (- ENOMEM, layer)
           else
             let layer1 =
                   (case found of
                      None \<Rightarrow>
                        layer\<lparr> layer_props := layer_props layer @
                                 [\<lparr> prop_index = property, prop_id = 0, prop_dprop = None,
                                    prop_value = 0, prop_prev_value = 0 \<rparr>],
                               changed := True \<rparr>
                    | Some i \<Rightarrow> layer);
                 i = (case found of None \<Rightarrow> length (layer_props layer) | Some i \<Rightarrow> i);
                 layer2 = layer1\<lparr> layer_props :=
                            (layer_props layer1)[i := (layer_props layer1 ! i)\<lparr> prop_value := v \<rparr>] \<rparr>
             in if property = LIFTOFF_RPI_PROP_FB_ID \<and> force_comp layer2
                then (0, layer2\<lparr> force_comp := False, changed := True \<rparr>)
                else (0, layer2))"

section \<open>output.c\<close>

text \<open>
  \<open>liftoff_rpi_output_composition_layer_set(output, layer)\<close> on the handles \<open>output\<close>
  and \<open>layer\<close> (both non-NULL: the function dereferences them).
\<close>

definition liftoff_rpi_output_composition_layer_set :: "liftoff \<Rightarrow> nat \<Rightarrow> nat \<Rightarrow> liftoff" where
  "liftoff_rpi_output_composition_layer_set s output layer =
     (if layer_output (lays s layer) \<noteq> output then s
      else
        let out = outs s output;
            out1 = (if Some layer \<noteq> comp_layer out then out\<lparr> layers_changed := True \<rparr> else out);
            out2 = out1\<lparr> comp_layer := Some layer \<rparr>
        in s\<lparr> outs := (outs s)(output := out2) \<rparr>)"

section \<open>The DRM boundary (libdrm and the kernel)\<close>

text \<open>
  An atomic request is the list of the items added so far, oldest first; its cursor is
  their number. \<open>drmModeAtomicSetCursor\<close> to an earlier cursor drops the items added
  since.
\<close>

type_synonym atomic_item = "u32 \<times> u32 \<times> u64"
type_synonym drmModeAtomicReq = "atomic_item list"

text \<open>
  What libdrm and the kernel answer is a parameter of the model:
  \<^item> \<open>drm_add_property req object property value\<close>: a negative errno when
    \<open>drmModeAtomicAddProperty\<close> refuses the item, anything else when it appends it;
  \<^item> \<open>drm_atomic_commit req flags n\<close>: what the \<open>n\<close>-th consecutive
    \<open>drmModeAtomicCommit\<close> of this request with these flags returns;
  \<^item> \<open>drm_get_fb2 id\<close>: the framebuffer description, or the errno of the failure;
  \<^item> \<open>drm_close_buffer_handle\<close>, \<open>drm_get_plane\<close> (plane id and possible CRTCs),
    \<open>drm_object_get_properties\<close> (property ids and values of a plane),
    \<open>drm_get_property\<close>, \<open>drm_get_property_blob\<close>: the other queries;
  \<^item> \<open>calloc_ok\<close>, \<open>malloc_ok\<close>: whether \<open>calloc\<close> and \<open>malloc\<close> succeed.
\<close>

record drm =
  drm_add_property :: "drmModeAtomicReq \<Rightarrow> u32 \<Rightarrow> u32 \<Rightarrow> u64 \<Rightarrow> int"
  drm_atomic_commit :: "drmModeAtomicReq \<Rightarrow> u32 \<Rightarrow> nat \<Rightarrow> int"
  drm_get_fb2 :: "u32 \<Rightarrow> int + drmModeFB2"
  drm_close_buffer_handle :: "u32 \<Rightarrow> int"
  drm_get_plane :: "u32 \<Rightarrow> (u32 \<times> u32) option"
  drm_object_get_properties :: "u32 \<Rightarrow> (u32 \<times> u64) list option"
  drm_get_property :: "u32 \<Rightarrow> drmModePropertyRes option"
  drm_get_property_blob :: "u32 \<Rightarrow> drm_format_modifier_blob option"
  calloc_ok :: bool
  malloc_ok :: bool

definition drmModeAtomicGetCursor :: "drmModeAtomicReq \<Rightarrow> int" where
  "drmModeAtomicGetCursor req = int (length req)"

definition drmModeAtomicSetCursor :: "drmModeAtomicReq \<Rightarrow> int \<Rightarrow> drmModeAtomicReq" where
  "drmModeAtomicSetCursor req c = take (nat c) req"

definition drmModeAtomicAddProperty ::
  "drm \<Rightarrow> drmModeAtomicReq \<Rightarrow> u32 \<Rightarrow> u32 \<Rightarrow> u64 \<Rightarrow> int \<times> drmModeAtomicReq" where
  "drmModeAtomicAddProperty k req object property v =
     (let r = drm_add_property k req object property v
      in if r < 0 then (r, req) else (int (length req) + 1, req @ [(object, property, v)]))"

text \<open>Flag bits of \<open>drm_mode.h\<close> and the property type mask of \<open>drmModeGetPropertyType\<close>.\<close>

abbreviation (input) DRM_MODE_PROP_RANGE :: u32 where "DRM_MODE_PROP_RANGE \<equiv> 0x2"
abbreviation (input) DRM_MODE_PROP_IMMUTABLE :: u32 where "DRM_MODE_PROP_IMMUTABLE \<equiv> 0x4"
abbreviation (input) DRM_MODE_PROP_ENUM :: u32 where "DRM_MODE_PROP_ENUM \<equiv> 0x8"
abbreviation (input) DRM_MODE_PROP_BITMASK :: u32 where "DRM_MODE_PROP_BITMASK \<equiv> 0x20"
abbreviation (input) DRM_MODE_PROP_SIGNED_RANGE :: u32 where "DRM_MODE_PROP_SIGNED_RANGE \<equiv> 0x80"
abbreviation (input) DRM_MODE_ROTATE_0 :: u64 where "DRM_MODE_ROTATE_0 \<equiv> 1"
abbreviation (input) DRM_MODE_FB_MODIFIERS :: u32 where "DRM_MODE_FB_MODIFIERS \<equiv> 0x2"
abbreviation (input) DRM_MODE_PAGE_FLIP_EVENT :: u32 where "DRM_MODE_PAGE_FLIP_EVENT \<equiv> 0x1"
abbreviation (input) DRM_MODE_ATOMIC_TEST_ONLY :: u32 where "DRM_MODE_ATOMIC_TEST_ONLY \<equiv> 0x100"

definition drmModeGetPropertyType :: "drmModePropertyRes \<Rightarrow> u32" where
  "drmModeGetPropertyType dprop = dprop_flags dprop AND 0xFFFA"

section \<open>plane.c\<close>

definition plane_zpos_guess :: "liftoff_rpi_device \<Rightarrow> u32 \<Rightarrow> u32 \<Rightarrow> int" where
  "plane_zpos_guess d ident type =
     (if type = DRM_PLANE_TYPE_PRIMARY then 0
      else if type = DRM_PLANE_TYPE_CURSOR then 2
      else if type = DRM_PLANE_TYPE_OVERLAY then
        (case planes d of
           [] \<Rightarrow> 0
         | primary # _ \<Rightarrow> if ident < plane_id primary then - 1 else 1)
      else 0)"

text \<open>
  The four value checks; \<open>0\<close> accepts. A range property carries its bounds in
  \<open>values[0]\<close> and \<open>values[1]\<close>. The bitmask check builds its mask from \<open>1 << value\<close>,
  an \<open>int\<close> shift whose result is sign-extended to 64 bits.
\<close>

definition plane_prop_range_check :: "drmModePropertyRes \<Rightarrow> u64 \<Rightarrow> int" where
  "plane_prop_range_check prop v =
     (if v < dprop_values prop ! 0 \<or> v > dprop_values prop ! 1 then - EINVAL else 0)"

definition plane_prop_signed_range_check :: "drmModePropertyRes \<Rightarrow> u64 \<Rightarrow> int" where
  "plane_prop_signed_range_check prop v =
     (if sint v < sint (dprop_values prop ! 0) \<or> sint v > sint (dprop_values prop ! 1)
      then - EINVAL else 0)"

definition plane_prop_enum_check :: "drmModePropertyRes \<Rightarrow> u64 \<Rightarrow> int" where
  "plane_prop_enum_check prop v = (if v \<in> set (dprop_enums prop) then 0 else - EINVAL)"

definition plane_prop_bitmask_check :: "drmModePropertyRes \<Rightarrow> u64 \<Rightarrow> int" where
  "plane_prop_bitmask_check prop v =
     (let mask = fold (\<lambda>e m. m OR (scast (push_bit (unat e) (1 :: 32 word)) :: u64))
                      (dprop_enums prop) 0
      in if v AND NOT mask \<noteq> 0 then - EINVAL else 0)"

definition plane_property_get :: "liftoff_rpi_plane \<Rightarrow> int \<Rightarrow> liftoff_rpi_property option" where
  "plane_property_get plane prop = find (\<lambda>p. prop_index p = prop) (plane_props plane)"

definition plane_property_set ::
  "drm \<Rightarrow> liftoff_rpi_plane \<Rightarrow> drmModeAtomicReq \<Rightarrow> u32 \<Rightarrow> u64 \<Rightarrow> int \<times> drmModeAtomicReq" where
  "plane_property_set k plane req ident v =
     (let (ret, req1) = drmModeAtomicAddProperty k req (plane_id plane) ident v
      in if ret < 0 then (ret, req1) else (0, req1))"

text \<open>
  \<open>plane_prop_set\<close>: the validating setter. \<open>None\<close> stands for the dereference of a
  NULL \<open>dprop\<close>, where the C function does not return.
\<close>

definition plane_prop_set ::
  "drm \<Rightarrow> liftoff_rpi_plane \<Rightarrow> drmModeAtomicReq \<Rightarrow> int \<Rightarrow> u64 \<Rightarrow>
   (int \<times> drmModeAtomicReq) option" where
  "plane_prop_set k plane req index v =
     (case plane_property_get plane index of
        None \<Rightarrow> Some (- EINVAL, req)
      | Some prop \<Rightarrow>
          (case prop_dprop prop of
             None \<Rightarrow> None
           | Some dprop \<Rightarrow>
               if dprop_flags dprop AND DRM_MODE_PROP_IMMUTABLE \<noteq> 0 then Some (- EINVAL, req)
               else
                 let t = drmModeGetPropertyType dprop;
                     ret = (if t = DRM_MODE_PROP_RANGE then plane_prop_range_check dprop v
                            else if t = DRM_MODE_PROP_ENUM then plane_prop_enum_check dprop v
                            else if t = DRM_MODE_PROP_BITMASK then plane_prop_bitmask_check dprop v
                            else if t = DRM_MODE_PROP_SIGNED_RANGE
                              then plane_prop_signed_range_check dprop v
                            else 0)
                 in if ret \<noteq> 0 then Some (ret, req)
                    else Some (plane_property_set k plane req (prop_id prop) v)))"

text \<open>
  The loop of \<open>plane_apply\<close> over the layer's properties; \<open>c\<close> is the cursor taken on
  entry. A property found on the plane is added with \<open>plane_property_set\<close>.
\<close>

fun plane_apply_props ::
  "drm \<Rightarrow> liftoff_rpi_plane \<Rightarrow> int \<Rightarrow> liftoff_rpi_property list \<Rightarrow> drmModeAtomicReq \<Rightarrow>
   int \<times> drmModeAtomicReq" where
  "plane_apply_props k plane c [] req = (0, req)"
| "plane_apply_props k plane c (lprop # lprops) req =
     (if prop_index lprop = LIFTOFF_RPI_PROP_ZPOS then plane_apply_props k plane c lprops req
      else
        case plane_property_get plane (prop_index lprop) of
          None \<Rightarrow>
            if prop_index lprop = LIFTOFF_RPI_PROP_ALPHA \<and> prop_value lprop = 0xFFFF
              then plane_apply_props k plane c lprops req
            else if prop_index lprop = LIFTOFF_RPI_PROP_ROTATION \<and>
                    prop_value lprop = DRM_MODE_ROTATE_0
              then plane_apply_props k plane c lprops req
            else if prop_index lprop = LIFTOFF_RPI_PROP_SCALING_FILTER \<and> prop_value lprop = 0
              then plane_apply_props k plane c lprops req
            else if prop_index lprop = LIFTOFF_RPI_PROP_PIXEL_BLEND_MODE \<and> prop_value lprop = 0
              then plane_apply_props k plane c lprops req
            else if prop_index lprop = LIFTOFF_RPI_PROP_FB_DAMAGE_CLIPS
              then plane_apply_props k plane c lprops req
            else (- EINVAL, drmModeAtomicSetCursor req c)
        | Some pprop \<Rightarrow>
            (let (ret, req1) = plane_property_set k plane req (prop_id pprop) (prop_value lprop)
             in if ret \<noteq> 0 then (ret, drmModeAtomicSetCursor req1 c)
                else plane_apply_props k plane c lprops req1))"

text \<open>
  \<open>plane_apply(plane, layer, req)\<close>; \<open>layer\<close> is a handle or \<open>None\<close> for NULL, and the
  state is read for the layer and the CRTC id of its output.
\<close>

definition plane_apply ::
  "drm \<Rightarrow> liftoff \<Rightarrow> liftoff_rpi_plane \<Rightarrow> nat option \<Rightarrow> drmModeAtomicReq \<Rightarrow>
   (int \<times> drmModeAtomicReq) option" where
  "plane_apply k s plane layer req =
     (let c = drmModeAtomicGetCursor req
      in case layer of
           None \<Rightarrow>
             (case plane_prop_set k plane req LIFTOFF_RPI_PROP_FB_ID 0 of
                None \<Rightarrow> None
              | Some (ret, req1) \<Rightarrow>
                  if ret \<noteq> 0 then Some (ret, req1)
                  else plane_prop_set k plane req1 LIFTOFF_RPI_PROP_CRTC_ID 0)
         | Some l \<Rightarrow>
             (case plane_prop_set k plane req LIFTOFF_RPI_PROP_CRTC_ID
                     (ucast (crtc_id (outs s (layer_output (lays s l))))) of
                None \<Rightarrow> None
              | Some (ret, req1) \<Rightarrow>
                  if ret \<noteq> 0 then Some (ret, req1)
                  else Some (plane_apply_props k plane c (layer_props (lays s l)) req1)))"

text \<open>
  \<open>plane_check_layer_fb\<close>. The format index is an \<open>ssize_t\<close>; the modifier's offset is
  cast to \<open>int\<close>, and \<open>offset + 64\<close> is an \<open>int\<close> sum.
\<close>

definition plane_check_layer_fb :: "liftoff_rpi_plane \<Rightarrow> liftoff_rpi_layer \<Rightarrow> bool" where
  "plane_check_layer_fb plane layer =
     (if fb_id (fb_info layer) = 0 \<or>
         fb_flags (fb_info layer) AND DRM_MODE_FB_MODIFIERS = 0 \<or>
         in_formats_blob plane = None
      then True
      else
        case in_formats_blob plane of
          None \<Rightarrow> True
        | Some blob \<Rightarrow>
            (case first_index (\<lambda>f. f = fb_pixel_format (fb_info layer)) (blob_formats blob) of
               None \<Rightarrow> False
             | Some format_index \<Rightarrow>
                 (case first_index (\<lambda>m. dfm_modifier m = fb_modifier (fb_info layer))
                         (blob_modifiers blob) of
                    None \<Rightarrow> False
                  | Some modifier_index \<Rightarrow>
                      let m = blob_modifiers blob ! modifier_index;
                          off = sint (dfm_offset m)
                      in if int format_index < off \<or> int format_index \<ge> wrap_int (off + 64)
                         then False
                         else
                           let format_shift = wrap_int (int format_index - off)
                           in dfm_formats m AND push_bit (nat format_shift) 1 \<noteq> 0)))"

text \<open>
  \<open>liftoff_rpi_plane_create\<close>. \<open>prop_name_index\<close> is the chain of \<open>strcmp\<close>s (\<open>- 1\<close>: a
  property the library does not know).
\<close>

definition prop_name_index :: "string \<Rightarrow> int" where
  "prop_name_index name =
     (if name = ''type'' then LIFTOFF_RPI_PROP_TYPE
      else if name = ''FB_ID'' then LIFTOFF_RPI_PROP_FB_ID
      else if name = ''CRTC_ID'' then LIFTOFF_RPI_PROP_CRTC_ID
      else if name = ''CRTC_X'' then LIFTOFF_RPI_PROP_CRTC_X
      else if name = ''CRTC_Y'' then LIFTOFF_RPI_PROP_CRTC_Y
      else if name = ''CRTC_W'' then LIFTOFF_RPI_PROP_CRTC_W
      else if name = ''CRTC_H'' then LIFTOFF_RPI_PROP_CRTC_H
      else if name = ''SRC_X'' then LIFTOFF_RPI_PROP_SRC_X
      else if name = ''SRC_Y'' then LIFTOFF_RPI_PROP_SRC_Y
      else if name = ''SRC_W'' then LIFTOFF_RPI_PROP_SRC_W
      else if name = ''SRC_H'' then LIFTOFF_RPI_PROP_SRC_H
      else if name = ''zpos'' then LIFTOFF_RPI_PROP_ZPOS
      else if name = ''alpha'' then LIFTOFF_RPI_PROP_ALPHA
      else if name = ''rotation'' then LIFTOFF_RPI_PROP_ROTATION
      else if name = ''SCALING FILTER'' then LIFTOFF_RPI_PROP_SCALING_FILTER
      else if name = ''pixel blend mode'' then LIFTOFF_RPI_PROP_PIXEL_BLEND_MODE
      else if name = ''FB_DAMAGE_CLIPS'' then LIFTOFF_RPI_PROP_FB_DAMAGE_CLIPS
      else if name = ''IN_FENCE_FD'' then LIFTOFF_RPI_PROP_IN_FENCE_FD
      else if name = ''IN_FORMATS'' then LIFTOFF_RPI_PROP_IN_FORMATS
      else - 1)"

text \<open>
  The state of the property loop: the plane under construction, the whole \<open>props\<close>
  array (one zeroed entry per DRM property, filled at the DRM property's own position),
  \<open>props_len\<close>, \<open>has_type\<close> and \<open>has_zpos\<close>.
\<close>

record plane_build =
  pb_plane :: liftoff_rpi_plane
  pb_props :: "liftoff_rpi_property list"
  pb_props_len :: nat
  pb_has_type :: bool
  pb_has_zpos :: bool

definition zero_property :: liftoff_rpi_property where
  "zero_property = \<lparr> prop_index = 0, prop_id = 0, prop_dprop = None,
                      prop_value = 0, prop_prev_value = 0 \<rparr>"

fun plane_create_props ::
  "drm \<Rightarrow> (u32 \<times> u64) list \<Rightarrow> nat \<Rightarrow> plane_build \<Rightarrow> plane_build option" where
  "plane_create_props k [] i b = Some b"
| "plane_create_props k ((pid, pval) # dprops) i b =
     (case drm_get_property k pid of
        None \<Rightarrow> None
      | Some dprop \<Rightarrow>
          let x = prop_name_index (dprop_name dprop);
              b1 = (if x = LIFTOFF_RPI_PROP_TYPE
                      then Some (b\<lparr> pb_has_type := True,
                                    pb_plane := (pb_plane b)\<lparr> plane_type := ucast pval \<rparr> \<rparr>)
                    else if x = LIFTOFF_RPI_PROP_ZPOS
                      then Some (b\<lparr> pb_has_zpos := True,
                                    pb_plane := (pb_plane b)\<lparr> plane_zpos := int_of_u64 pval \<rparr> \<rparr>)
                    else if x = LIFTOFF_RPI_PROP_IN_FORMATS
                      then (case drm_get_property_blob k (ucast pval) of
                              None \<Rightarrow> None
                            | Some blob \<Rightarrow>
                                Some (b\<lparr> pb_plane :=
                                          (pb_plane b)\<lparr> in_formats_blob := Some blob \<rparr> \<rparr>))
                    else Some b)
          in case b1 of
               None \<Rightarrow> None
             | Some b2 \<Rightarrow>
                 if x < 0 then plane_create_props k dprops (Suc i) b2
                 else plane_create_props k dprops (Suc i)
                        (b2\<lparr> pb_props := (pb_props b2)
                                [i := \<lparr> prop_index = x, prop_id = dprop_id dprop,
                                        prop_dprop = Some dprop, prop_value = 0,
                                        prop_prev_value = 0 \<rparr>],
                             pb_props_len := Suc (pb_props_len b2) \<rparr>))"

text \<open>
  The insertion of a non-PRIMARY plane: before the first non-PRIMARY plane whose zpos
  is not above the new plane's, at the tail when there is none.
\<close>

fun plane_list_insert ::
  "liftoff_rpi_plane \<Rightarrow> liftoff_rpi_plane list \<Rightarrow> liftoff_rpi_plane list" where
  "plane_list_insert plane [] = [plane]"
| "plane_list_insert plane (cur # rest) =
     (if plane_type cur \<noteq> DRM_PLANE_TYPE_PRIMARY \<and> plane_zpos plane \<ge> plane_zpos cur
      then plane # cur # rest
      else cur # plane_list_insert plane rest)"

definition liftoff_rpi_plane_create ::
  "drm \<Rightarrow> liftoff_rpi_device \<Rightarrow> u32 \<Rightarrow> liftoff_rpi_plane option \<times> liftoff_rpi_device" where
  "liftoff_rpi_plane_create k d ident =
     (if ident \<in> plane_id ` set (planes d) then (None, d)
      else if \<not> calloc_ok k then (None, d)
      else
        case drm_get_plane k ident of
          None \<Rightarrow> (None, d)
        | Some (dplane_id, dplane_crtcs) \<Rightarrow>
            (case drm_object_get_properties k ident of
               None \<Rightarrow> (None, d)
             | Some dprops \<Rightarrow>
                 let plane0 = \<lparr> plane_layer = None, plane_props = [], in_formats_blob = None,
                                plane_id = dplane_id, plane_type = 0,
                                possible_crtcs = dplane_crtcs, plane_zpos = 0 \<rparr>
                 in case plane_create_props k dprops 0
                           \<lparr> pb_plane = plane0,
                             pb_props = replicate (length dprops) zero_property,
                             pb_props_len = 0, pb_has_type = False, pb_has_zpos = False \<rparr> of
                      None \<Rightarrow> (None, d)
                    | Some b \<Rightarrow>
                        if \<not> pb_has_type b then (None, d)
                        else
                          let plane1 = (pb_plane b)\<lparr> plane_props :=
                                          take (pb_props_len b) (pb_props b) \<rparr>;
                              plane2 = (if \<not> pb_has_zpos b
                                        then plane1\<lparr> plane_zpos :=
                                               plane_zpos_guess d (plane_id plane1)
                                                 (plane_type plane1) \<rparr>
                                        else plane1)
                          in if plane_type plane2 = DRM_PLANE_TYPE_PRIMARY
                             then (Some plane2, d\<lparr> planes := plane2 # planes d \<rparr>)
                             else (Some plane2,
                                   d\<lparr> planes := plane_list_insert plane2 (planes d) \<rparr>)))"

text \<open>A sequence of \<open>liftoff_rpi_plane_create\<close> calls, all of which succeed.\<close>

fun planes_create_all :: "drm \<Rightarrow> liftoff_rpi_device \<Rightarrow> u32 list \<Rightarrow> liftoff_rpi_device option" where
  "planes_create_all k d [] = Some d"
| "planes_create_all k d (ident # idents) =
     (case liftoff_rpi_plane_create k d ident of
        (None, _) \<Rightarrow> None
      | (Some _, d1) \<Rightarrow> planes_create_all k d1 idents)"

section \<open>device.c\<close>

text \<open>
  The retry loop of \<open>device_test_commit\<close>: commit again while the kernel answers
  \<open>-EINTR\<close> or \<open>-EAGAIN\<close>. A kernel that answers so forever keeps the loop running;
  the result is then \<open>None\<close>.
\<close>

partial_function (option) atomic_commit_retry :: "(nat \<Rightarrow> int) \<Rightarrow> nat \<Rightarrow> int option" where
  "atomic_commit_retry f n =
     (if f n = - EINTR \<or> f n = - EAGAIN then atomic_commit_retry f (Suc n) else Some (f n))"

declare atomic_commit_retry.simps [code]

section \<open>alloc.c\<close>

text \<open>
  \<open>struct alloc_result\<close> and \<open>struct alloc_step\<close>. \<open>res_req\<close> is the content of the
  request \<open>req\<close> points to. The position \<open>plink\<close> in the plane list is the list of the
  planes from \<open>plink\<close> to the end, passed next to the step; the log prefix is left out.
  \<open>alloc\<close> and \<open>best\<close> are arrays of \<open>planes_len\<close> layer handles. All steps of a search
  share one \<open>alloc\<close> array; a step reads only the entries before its \<open>pindex\<close>, which the
  steps above it on the current path wrote, so each step carries its own copy here.
  Scores count planes and never leave the range of \<open>int\<close>; they are added as integers.
\<close>

record alloc_result =
  res_req :: drmModeAtomicReq
  res_flags :: u32
  planes_len :: nat
  best :: "nat option list"
  best_score :: int
  has_comp_layer :: bool
  non_comp_layers_len :: nat

text \<open>
  What a search changes besides the result: the device's \<open>test_commit_counter\<close> and the
  layers' \<open>candidate_planes\<close> arrays. Everything else of the state is only read.
\<close>

record search_state = alloc_result +
  ss_test_commit_counter :: int
  ss_cand :: "nat \<Rightarrow> u32 list"

record alloc_step =
  pindex :: nat
  alloc :: "nat option list"
  score :: int
  last_layer_zpos :: int
  primary_layer_zpos :: int
  primary_plane_zpos :: int
  composited :: bool

definition device_test_commit :: "drm \<Rightarrow> search_state \<Rightarrow> (int \<times> search_state) option" where
  "device_test_commit k st =
     (let st1 = st\<lparr> ss_test_commit_counter := wrap_int (ss_test_commit_counter st + 1) \<rparr>;
          flags = res_flags st AND NOT DRM_MODE_PAGE_FLIP_EVENT
      in case atomic_commit_retry
                (drm_atomic_commit k (res_req st) (DRM_MODE_ATOMIC_TEST_ONLY OR flags)) 0 of
           None \<Rightarrow> None
         | Some ret \<Rightarrow> Some (ret, st1))"

definition layer_candidate_plane_add :: "u32 list \<Rightarrow> liftoff_rpi_plane \<Rightarrow> u32 list" where
  "layer_candidate_plane_add c plane =
     (if plane_id plane \<in> set c then c
      else case first_index (\<lambda>x. x = 0) c of
             None \<Rightarrow> c
           | Some slot \<Rightarrow> c[slot := plane_id plane])"

definition layer_candidate_planes_reset :: "liftoff \<Rightarrow> u32 list" where
  "layer_candidate_planes_reset s = replicate (planes_cap (dev s)) 0"

definition is_comp_layer :: "liftoff \<Rightarrow> nat \<Rightarrow> bool" where
  "is_comp_layer s layer = (comp_layer (outs s (layer_output (lays s layer))) = Some layer)"

text \<open>\<open>plane_step_init_next(step, prev, layer)\<close>; \<open>plane\<close> is the plane at \<open>prev->plink\<close>.\<close>

definition plane_step_init_next ::
  "liftoff \<Rightarrow> alloc_step \<Rightarrow> liftoff_rpi_plane \<Rightarrow> nat option \<Rightarrow> alloc_step" where
  "plane_step_init_next s prev plane layer =
     (let comp = (case layer of None \<Rightarrow> False | Some l \<Rightarrow> is_comp_layer s l);
          zprop = (case layer of
                     None \<Rightarrow> None
                   | Some l \<Rightarrow> layer_property_get (lays s l) LIFTOFF_RPI_PROP_ZPOS)
      in \<lparr> pindex = pindex prev + 1,
           alloc = (alloc prev)[pindex prev := layer],
           score = (if layer \<noteq> None \<and> \<not> comp then score prev + 1 else score prev),
           last_layer_zpos =
             (case zprop of
                Some z \<Rightarrow> if plane_type plane \<noteq> DRM_PLANE_TYPE_PRIMARY
                           then int_of_u64 (prop_value z) else last_layer_zpos prev
              | None \<Rightarrow> last_layer_zpos prev),
           primary_layer_zpos =
             (case zprop of
                Some z \<Rightarrow> if plane_type plane = DRM_PLANE_TYPE_PRIMARY
                           then int_of_u64 (prop_value z) else primary_layer_zpos prev
              | None \<Rightarrow> primary_layer_zpos prev),
           primary_plane_zpos =
             (case zprop of
                Some z \<Rightarrow> if plane_type plane = DRM_PLANE_TYPE_PRIMARY
                           then plane_zpos plane else primary_plane_zpos prev
              | None \<Rightarrow> primary_plane_zpos prev),
           composited = (if comp then True else composited prev) \<rparr>)"

definition layer_allocated_get :: "alloc_step \<Rightarrow> nat \<Rightarrow> bool" where
  "layer_allocated_get step layer = (Some layer \<in> set (take (pindex step) (alloc step)))"

definition composited_layer_over_get :: "liftoff \<Rightarrow> nat \<Rightarrow> alloc_step \<Rightarrow> nat \<Rightarrow> bool" where
  "composited_layer_over_get s output step layer =
     (case layer_property_get (lays s layer) LIFTOFF_RPI_PROP_ZPOS of
        None \<Rightarrow> False
      | Some zprop \<Rightarrow>
          list_ex (\<lambda>olayer.
              \<not> layer_allocated_get step olayer \<and>
              (case layer_property_get (lays s olayer) LIFTOFF_RPI_PROP_ZPOS of
                 None \<Rightarrow> False
               | Some ozprop \<Rightarrow>
                   layer_intersects (lays s layer) (lays s olayer) \<and>
                   prop_value ozprop > prop_value zprop))
            (out_layers (outs s output)))"

text \<open>
  The two loops over the planes before \<open>pindex\<close>: plane \<open>i\<close> of the device's list goes
  with \<open>alloc[i]\<close>.
\<close>

definition allocated_layer_over_get :: "liftoff \<Rightarrow> alloc_step \<Rightarrow> nat \<Rightarrow> bool" where
  "allocated_layer_over_get s step layer =
     (case layer_property_get (lays s layer) LIFTOFF_RPI_PROP_ZPOS of
        None \<Rightarrow> False
      | Some zprop \<Rightarrow>
          list_ex (\<lambda>(oplane, a).
              plane_type oplane \<noteq> DRM_PLANE_TYPE_PRIMARY \<and>
              (case a of
                 None \<Rightarrow> False
               | Some olayer \<Rightarrow>
                   (case layer_property_get (lays s olayer) LIFTOFF_RPI_PROP_ZPOS of
                      None \<Rightarrow> False
                    | Some ozprop \<Rightarrow>
                        prop_value zprop > prop_value ozprop \<and>
                        layer_intersects (lays s layer) (lays s olayer))))
            (take (pindex step) (zip (planes (dev s)) (alloc step))))"

definition allocated_plane_under_get ::
  "liftoff \<Rightarrow> alloc_step \<Rightarrow> liftoff_rpi_plane \<Rightarrow> nat \<Rightarrow> bool" where
  "allocated_plane_under_get s step plane layer =
     list_ex (\<lambda>(oplane, a).
         plane_type oplane \<noteq> DRM_PLANE_TYPE_PRIMARY \<and>
         (case a of
            None \<Rightarrow> False
          | Some olayer \<Rightarrow>
              plane_zpos plane \<ge> plane_zpos oplane \<and>
              layer_intersects (lays s layer) (lays s olayer)))
       (take (pindex step) (zip (planes (dev s)) (alloc step)))"

definition layer_plane_compatible_get ::
  "liftoff \<Rightarrow> alloc_step \<Rightarrow> nat \<Rightarrow> liftoff_rpi_plane \<Rightarrow> bool" where
  "layer_plane_compatible_get s step layer plane =
     (let output = layer_output (lays s layer)
      in if layer_allocated_get step layer then False
         else if (case layer_property_get (lays s layer) LIFTOFF_RPI_PROP_ZPOS of
                    None \<Rightarrow> False
                  | Some zprop \<Rightarrow>
                      (int_of_u64 (prop_value zprop) > last_layer_zpos step \<and>
                       allocated_layer_over_get s step layer) \<or>
                      (int_of_u64 (prop_value zprop) < last_layer_zpos step \<and>
                       allocated_plane_under_get s step plane layer) \<or>
                      (plane_type plane \<noteq> DRM_PLANE_TYPE_PRIMARY \<and>
                       int_of_u64 (prop_value zprop) < primary_layer_zpos step \<and>
                       plane_zpos plane > primary_plane_zpos step))
           then False
         else if plane_type plane \<noteq> DRM_PLANE_TYPE_PRIMARY \<and>
                 composited_layer_over_get s output step layer
           then False
         else if plane_type plane \<noteq> DRM_PLANE_TYPE_PRIMARY \<and> is_comp_layer s layer
           then False
         else True)"

text \<open>The cast \<open>(int)result->non_comp_layers_len\<close> of a \<open>size_t\<close> truncates to 32 bits.\<close>

definition int_of_size :: "nat \<Rightarrow> int" where
  "int_of_size n = sint (word_of_nat n :: 32 word)"

definition alloc_valid_get :: "'a alloc_result_scheme \<Rightarrow> alloc_step \<Rightarrow> bool" where
  "alloc_valid_get result step =
     (if has_comp_layer result \<and> \<not> composited step \<and>
         score step \<noteq> int_of_size (non_comp_layers_len result)
      then False
      else if composited step \<and> score step = int_of_size (non_comp_layers_len result)
      then False
      else True)"

definition non_comp_layers_len_get :: "liftoff \<Rightarrow> nat \<Rightarrow> nat" where
  "non_comp_layers_len_get s output =
     length (filter (\<lambda>layer. layer_visible_get (lays s layer) \<and>
                              comp_layer (outs s output) \<noteq> Some layer)
               (out_layers (outs s output)))"

text \<open>
  One iteration of the layer loop of \<open>output_layers_choose\<close>, up to the point where it
  either goes on with the next layer (\<open>Next\<close>: a \<open>continue\<close>, or the end of the body
  after a rejected test commit), returns an error (\<open>Abort\<close>), or calls itself on the
  next plane (\<open>Descend\<close>, after a successful test commit). \<open>Stuck\<close>: a call that does
  not return. \<open>cur\<close> is the cursor taken on entry of \<open>output_layers_choose\<close>.
\<close>

datatype attempt = Stuck | Next search_state | Abort int search_state | Descend search_state

definition layer_try ::
  "drm \<Rightarrow> liftoff \<Rightarrow> liftoff_rpi_plane \<Rightarrow> alloc_step \<Rightarrow> int \<Rightarrow> nat \<Rightarrow> search_state \<Rightarrow> attempt" where
  "layer_try k s plane step cur layer st =
     (if layer_plane (lays s layer) \<noteq> None then Next st
      else if \<not> layer_visible_get (lays s layer) then Next st
      else if \<not> layer_plane_compatible_get s step layer plane then Next st
      else
        case plane_apply k s plane (Some layer) (res_req st) of
          None \<Rightarrow> Stuck
        | Some (ret, req1) \<Rightarrow>
            if ret = - EINVAL then Next (st\<lparr> res_req := req1 \<rparr>)
            else if ret \<noteq> 0 then Abort ret (st\<lparr> res_req := req1 \<rparr>)
            else
              let st1 = st\<lparr> res_req := req1,
                            ss_cand := (ss_cand st)
                              (layer := layer_candidate_plane_add (ss_cand st layer) plane) \<rparr>
              in if force_comp (lays s layer) \<or> \<not> plane_check_layer_fb plane (lays s layer)
                 then Next (st1\<lparr> res_req := drmModeAtomicSetCursor (res_req st1) cur \<rparr>)
                 else
                   case device_test_commit k st1 of
                     None \<Rightarrow> Stuck
                   | Some (ret, st2) \<Rightarrow>
                       if ret = 0 then Descend st2
                       else if ret \<noteq> - EINVAL \<and> ret \<noteq> - ERANGE \<and> ret \<noteq> - ENOSPC
                         then Abort ret st2
                       else Next (st2\<lparr> res_req := drmModeAtomicSetCursor (res_req st2) cur \<rparr>))"

text \<open>
  \<open>output_layers_choose\<close>. The plane list argument is the part of the device's list from
  \<open>step->plink\<close> on (\<open>[]\<close>: \<open>plink\<close> is back at the list head). \<open>output_layers_loop\<close> is
  the layer loop followed by the code at the label \<open>skip\<close>; a \<open>goto skip\<close> is the loop
  over no layer. With \<open>prune = False\<close> the upper-bound test is taken out; the C function
  is \<open>prune = True\<close>. \<open>1 << crtc_index\<close> is a 32-bit shift.
\<close>

fun output_layers_choose ::
  "bool \<Rightarrow> drm \<Rightarrow> liftoff \<Rightarrow> nat \<Rightarrow> liftoff_rpi_plane list \<Rightarrow> alloc_step \<Rightarrow> search_state \<Rightarrow>
   (int \<times> search_state) option"
and output_layers_loop ::
  "bool \<Rightarrow> drm \<Rightarrow> liftoff \<Rightarrow> nat \<Rightarrow> liftoff_rpi_plane \<Rightarrow> liftoff_rpi_plane list \<Rightarrow> alloc_step \<Rightarrow>
   int \<Rightarrow> nat list \<Rightarrow> search_state \<Rightarrow> (int \<times> search_state) option"
where
  "output_layers_choose prune k s output [] step st =
     (if score step > best_score st \<and> alloc_valid_get st step
      then Some (0, st\<lparr> best_score := score step,
                         best := take (planes_len st) (alloc step) @
                                 drop (planes_len st) (best st) \<rparr>)
      else Some (0, st))"
| "output_layers_choose prune k s output (plane # rest) step st =
     (if prune \<and> best_score st \<ge> score step + int (planes_len st - pindex step)
      then Some (0, st)
      else
        let cur = drmModeAtomicGetCursor (res_req st)
        in if plane_layer plane \<noteq> None
             then output_layers_loop prune k s output plane rest step cur [] st
           else if possible_crtcs plane AND push_bit (crtc_index (outs s output)) 1 = 0
             then output_layers_loop prune k s output plane rest step cur [] st
           else output_layers_loop prune k s output plane rest step cur
                  (out_layers (outs s output)) st)"
| "output_layers_loop prune k s output plane rest step cur [] st =
     (case output_layers_choose prune k s output rest
             (plane_step_init_next s step plane None) st of
        None \<Rightarrow> None
      | Some (ret, st1) \<Rightarrow>
          if ret \<noteq> 0 then Some (ret, st1)
          else Some (0, st1\<lparr> res_req := drmModeAtomicSetCursor (res_req st1) cur \<rparr>))"
| "output_layers_loop prune k s output plane rest step cur (layer # layers) st =
     (case layer_try k s plane step cur layer st of
        Stuck \<Rightarrow> None
      | Next st1 \<Rightarrow> output_layers_loop prune k s output plane rest step cur layers st1
      | Abort ret st1 \<Rightarrow> Some (ret, st1)
      | Descend st1 \<Rightarrow>
          (case output_layers_choose prune k s output rest
                  (plane_step_init_next s step plane (Some layer)) st1 of
             None \<Rightarrow> None
           | Some (ret, st2) \<Rightarrow>
               if ret \<noteq> 0 then Some (ret, st2)
               else output_layers_loop prune k s output plane rest step cur layers
                      (st2\<lparr> res_req := drmModeAtomicSetCursor (res_req st2) cur \<rparr>)))"

text \<open>\<open>apply_current\<close>: every plane of the device is staged with its current layer.\<close>

fun apply_current_planes ::
  "drm \<Rightarrow> liftoff \<Rightarrow> int \<Rightarrow> liftoff_rpi_plane list \<Rightarrow> drmModeAtomicReq \<Rightarrow>
   (int \<times> drmModeAtomicReq) option" where
  "apply_current_planes k s cur [] req = Some (0, req)"
| "apply_current_planes k s cur (plane # rest) req =
     (case plane_apply k s plane (plane_layer plane) req of
        None \<Rightarrow> None
      | Some (ret, req1) \<Rightarrow>
          if ret \<noteq> 0 then Some (ret, drmModeAtomicSetCursor req1 cur)
          else apply_current_planes k s cur rest req1)"

definition apply_current ::
  "drm \<Rightarrow> liftoff \<Rightarrow> drmModeAtomicReq \<Rightarrow> (int \<times> drmModeAtomicReq) option" where
  "apply_current k s req =
     apply_current_planes k s (drmModeAtomicGetCursor req) (planes (dev s)) req"

definition layer_fb_info_needs_realloc :: "drmModeFB2 \<Rightarrow> drmModeFB2 \<Rightarrow> bool" where
  "layer_fb_info_needs_realloc a b =
     (fb_width a \<noteq> fb_width b \<or> fb_height a \<noteq> fb_height b \<or>
      fb_pixel_format a \<noteq> fb_pixel_format b \<or> fb_modifier a \<noteq> fb_modifier b)"

text \<open>
  \<open>layer_cache_fb_info\<close> (layer.c). The GEM handles the query returns are closed; a
  handle is zeroed, with its later duplicates, once it is closed.
\<close>

fun close_buffer_handles :: "drm \<Rightarrow> u32 list \<Rightarrow> u32 list" where
  "close_buffer_handles k [] = []"
| "close_buffer_handles k (h # hs) =
     (if h = 0 then h # close_buffer_handles k hs
      else if drm_close_buffer_handle k h \<noteq> 0 then h # close_buffer_handles k hs
      else 0 # close_buffer_handles k (map (\<lambda>x. if x = h then 0 else x) hs))"

definition layer_cache_fb_info :: "drm \<Rightarrow> liftoff_rpi_layer \<Rightarrow> int \<times> liftoff_rpi_layer" where
  "layer_cache_fb_info k layer =
     (case layer_property_get layer LIFTOFF_RPI_PROP_FB_ID of
        None \<Rightarrow> (0, layer\<lparr> fb_info := zero_fb_info \<rparr>)
      | Some fb_id_prop \<Rightarrow>
          if prop_value fb_id_prop = 0 then (0, layer\<lparr> fb_info := zero_fb_info \<rparr>)
          else if ucast (fb_id (fb_info layer)) = prop_value fb_id_prop then (0, layer)
          else
            (case drm_get_fb2 k (ucast (prop_value fb_id_prop)) of
               Inl errno \<Rightarrow> if errno = EINVAL then (0, layer) else (- errno, layer)
             | Inr info \<Rightarrow>
                 (0, layer\<lparr> fb_info :=
                       info\<lparr> fb_handles := close_buffer_handles k (fb_handles info) \<rparr> \<rparr>)))"

definition layers_fb_info_update :: "drm \<Rightarrow> liftoff \<Rightarrow> nat \<Rightarrow> liftoff" where
  "layers_fb_info_update k s output =
     fold (\<lambda>layer s1.
             s1\<lparr> lays := (lays s1)
                   (layer := snd (layer_cache_fb_info k
                                    ((lays s1 layer)\<lparr> fb_info := zero_fb_info \<rparr>))) \<rparr>)
          (out_layers (outs s output)) s"

text \<open>\<open>layer_realloc_get\<close>: the loop over the properties, after the test of \<open>changed\<close>.\<close>

fun layer_realloc_props :: "liftoff_rpi_layer \<Rightarrow> liftoff_rpi_property list \<Rightarrow> bool" where
  "layer_realloc_props layer [] = False"
| "layer_realloc_props layer (prop # props) =
     (if prop_index prop = LIFTOFF_RPI_PROP_FB_ID then
        (if prop_value prop = 0 \<and> prop_prev_value prop = 0
           then layer_realloc_props layer props
         else if prop_value prop = 0 \<or> prop_prev_value prop = 0 then True
         else if layer_fb_info_needs_realloc (fb_info layer) (prev_fb_info layer) then True
         else layer_realloc_props layer props)
      else if prop_value prop = prop_prev_value prop then layer_realloc_props layer props
      else if prop_index prop = LIFTOFF_RPI_PROP_ALPHA then
        (if prop_value prop = 0 \<or> prop_prev_value prop = 0 \<or>
            prop_value prop = 0xFFFF \<or> prop_prev_value prop = 0xFFFF
         then True
         else layer_realloc_props layer props)
      else if prop_index prop = LIFTOFF_RPI_PROP_IN_FENCE_FD \<or>
              prop_index prop = LIFTOFF_RPI_PROP_FB_DAMAGE_CLIPS
        then layer_realloc_props layer props
      else True)"

definition layer_realloc_get :: "liftoff_rpi_layer \<Rightarrow> bool" where
  "layer_realloc_get layer =
     (if changed layer then True else layer_realloc_props layer (layer_props layer))"

text \<open>
  The reuse guard: \<open>reuse_prev_alloc\<close> gets past its two early returns of \<open>-EINVAL\<close>.
\<close>

definition reuse_permitted :: "liftoff \<Rightarrow> nat \<Rightarrow> bool" where
  "reuse_permitted s output =
     (if layers_changed (outs s output) then False
      else if list_ex (\<lambda>layer. layer_realloc_get (lays s layer)) (out_layers (outs s output))
        then False
      else True)"

text \<open>
  \<open>reuse_prev_alloc\<close>: the result code, the request and the device's
  \<open>test_commit_counter\<close> afterwards.
\<close>

definition commit_state :: "liftoff \<Rightarrow> drmModeAtomicReq \<Rightarrow> u32 \<Rightarrow> search_state" where
  "commit_state s req flags =
     \<lparr> res_req = req, res_flags = flags, planes_len = 0, best = [], best_score = 0,
       has_comp_layer = False, non_comp_layers_len = 0,
       ss_test_commit_counter = test_commit_counter (dev s), ss_cand = cand s \<rparr>"

definition reuse_prev_alloc ::
  "drm \<Rightarrow> liftoff \<Rightarrow> nat \<Rightarrow> drmModeAtomicReq \<Rightarrow> u32 \<Rightarrow>
   (int \<times> drmModeAtomicReq \<times> int) option" where
  "reuse_prev_alloc k s output req flags =
     (if \<not> reuse_permitted s output then Some (- EINVAL, req, test_commit_counter (dev s))
      else
        let cur = drmModeAtomicGetCursor req
        in case apply_current k s req of
             None \<Rightarrow> None
           | Some (ret, req1) \<Rightarrow>
               if ret \<noteq> 0 then Some (ret, req1, test_commit_counter (dev s))
               else
                 (case device_test_commit k (commit_state s req1 flags) of
                    None \<Rightarrow> None
                  | Some (ret1, st) \<Rightarrow>
                      Some (ret1,
                            if ret1 \<noteq> 0 then drmModeAtomicSetCursor req1 cur else req1,
                            ss_test_commit_counter st)))"

definition layers_mark_clean :: "liftoff \<Rightarrow> nat \<Rightarrow> liftoff" where
  "layers_mark_clean s output =
     (let s1 = s\<lparr> outs := (outs s)(output := (outs s output)\<lparr> layers_changed := False \<rparr>) \<rparr>
      in fold (\<lambda>layer s2. s2\<lparr> lays := (lays s2)(layer := layer_clean (lays s2 layer)) \<rparr>)
              (out_layers (outs s1 output)) s1)"

abbreviation (input) LIFTOFF_RPI_PRIORITY_PERIOD :: int where "LIFTOFF_RPI_PRIORITY_PERIOD \<equiv> 60"

definition layers_priority_update :: "liftoff \<Rightarrow> liftoff" where
  "layers_priority_update s =
     (let counter = wrap_int (page_flip_counter (dev s) + 1);
          elapsed = (counter \<ge> LIFTOFF_RPI_PRIORITY_PERIOD);
          s1 = s\<lparr> dev := (dev s)\<lparr> page_flip_counter := (if elapsed then 0 else counter) \<rparr> \<rparr>
      in fold (\<lambda>output s2.
                 fold (\<lambda>layer s3.
                         s3\<lparr> lays := (lays s3)
                               (layer := layer_priority_update (lays s3 layer) elapsed) \<rparr>)
                      (out_layers (outs s2 output)) s2)
              (outputs (dev s1)) s1)"

definition log_reuse :: "liftoff_rpi_output \<Rightarrow> liftoff_rpi_output" where
  "log_reuse out = out\<lparr> alloc_reused_counter := wrap_int (alloc_reused_counter out + 1) \<rparr>"

definition log_no_reuse :: "liftoff_rpi_output \<Rightarrow> liftoff_rpi_output" where
  "log_no_reuse out =
     (if alloc_reused_counter out \<noteq> 0 then out\<lparr> alloc_reused_counter := 0 \<rparr> else out)"

text \<open>
  The loops of \<open>liftoff_rpi_output_apply\<close> over the device's planes: the one that
  breaks the bindings of this output's layers, the one that disables every plane left
  without a layer, and the one that binds the planes to the layers of \<open>best\<close>.
\<close>

fun unbind_planes ::
  "nat \<Rightarrow> liftoff_rpi_plane list \<Rightarrow> (nat \<Rightarrow> liftoff_rpi_layer) \<Rightarrow>
   liftoff_rpi_plane list \<times> (nat \<Rightarrow> liftoff_rpi_layer)" where
  "unbind_planes output [] ls = ([], ls)"
| "unbind_planes output (plane # rest) ls =
     (case plane_layer plane of
        None \<Rightarrow> (let (rest1, ls1) = unbind_planes output rest ls in (plane # rest1, ls1))
      | Some l \<Rightarrow>
          if layer_output (ls l) = output
          then (let (rest1, ls1) =
                      unbind_planes output rest (ls(l := (ls l)\<lparr> layer_plane := None \<rparr>))
                in (plane\<lparr> plane_layer := None \<rparr> # rest1, ls1))
          else (let (rest1, ls1) = unbind_planes output rest ls in (plane # rest1, ls1)))"

fun disable_planes ::
  "drm \<Rightarrow> liftoff \<Rightarrow> liftoff_rpi_plane list \<Rightarrow> drmModeAtomicReq \<Rightarrow>
   (int \<times> drmModeAtomicReq) option" where
  "disable_planes k s [] req = Some (0, req)"
| "disable_planes k s (plane # rest) req =
     (if plane_layer plane = None
      then (case plane_apply k s plane None req of
              None \<Rightarrow> None
            | Some (ret, req1) \<Rightarrow>
                if ret \<noteq> 0 then Some (ret, req1) else disable_planes k s rest req1)
      else disable_planes k s rest req)"

fun install_best ::
  "liftoff_rpi_plane list \<Rightarrow> nat option list \<Rightarrow> (nat \<Rightarrow> liftoff_rpi_layer) \<Rightarrow>
   liftoff_rpi_plane list \<times> (nat \<Rightarrow> liftoff_rpi_layer)" where
  "install_best [] bs ls = ([], ls)"
| "install_best (plane # rest) [] ls = (plane # rest, ls)"
| "install_best (plane # rest) (None # bs) ls =
     (let (rest1, ls1) = install_best rest bs ls in (plane # rest1, ls1))"
| "install_best (plane # rest) (Some l # bs) ls =
     (let (rest1, ls1) =
            install_best rest bs (ls(l := (ls l)\<lparr> layer_plane := Some (plane_id plane) \<rparr>))
      in (plane\<lparr> plane_layer := Some l \<rparr> # rest1, ls1))"

text \<open>
  The result and the first step of a search, as \<open>liftoff_rpi_output_apply\<close> sets them
  up. The \<open>alloc\<close> array comes from \<open>malloc\<close>; every entry is written before it is
  read.
\<close>

definition initial_result :: "liftoff \<Rightarrow> nat \<Rightarrow> drmModeAtomicReq \<Rightarrow> u32 \<Rightarrow> search_state" where
  "initial_result s output req flags =
     \<lparr> res_req = req, res_flags = flags, planes_len = length (planes (dev s)),
       best = replicate (length (planes (dev s))) None, best_score = - 1,
       has_comp_layer = (comp_layer (outs s output) \<noteq> None),
       non_comp_layers_len = non_comp_layers_len_get s output,
       ss_test_commit_counter = test_commit_counter (dev s),
       ss_cand = cand s \<rparr>"

definition initial_step :: "nat \<Rightarrow> alloc_step" where
  "initial_step n =
     \<lparr> pindex = 0, alloc = replicate n None, score = 0,
       last_layer_zpos = INT_MAX, primary_layer_zpos = INT_MIN,
       primary_plane_zpos = INT_MAX, composited = False \<rparr>"

text \<open>
  \<open>liftoff_rpi_output_apply(output, req, flags)\<close>: the result code, the state and the
  request afterwards; \<open>None\<close> when the call does not return.
\<close>

definition liftoff_rpi_output_apply ::
  "drm \<Rightarrow> liftoff \<Rightarrow> nat \<Rightarrow> drmModeAtomicReq \<Rightarrow> u32 \<Rightarrow>
   (int \<times> liftoff \<times> drmModeAtomicReq) option" where
  "liftoff_rpi_output_apply k s0 output req flags =
     (let s1 = layers_priority_update s0;
          s2 = layers_fb_info_update k s1 output
      in case reuse_prev_alloc k s2 output req flags of
           None \<Rightarrow> None
         | Some (ret, req1, counter) \<Rightarrow>
             let s3 = s2\<lparr> dev := (dev s2)\<lparr> test_commit_counter := counter \<rparr> \<rparr>
             in if ret = 0
                then Some (0, s3\<lparr> outs := (outs s3)(output := log_reuse (outs s3 output)) \<rparr>, req1)
                else
                  let s4 = s3\<lparr> outs := (outs s3)(output := log_no_reuse (outs s3 output)) \<rparr>;
                      s5 = s4\<lparr> cand := fold (\<lambda>layer c. c(layer := layer_candidate_planes_reset s4))
                                         (out_layers (outs s4 output)) (cand s4) \<rparr>;
                      s6 = s5\<lparr> dev := (dev s5)\<lparr> test_commit_counter := 0 \<rparr> \<rparr>;
                      (planes1, lays1) = unbind_planes output (planes (dev s6)) (lays s6);
                      s7 = s6\<lparr> dev := (dev s6)\<lparr> planes := planes1 \<rparr>, lays := lays1 \<rparr>
                  in case disable_planes k s7 (planes (dev s7)) req1 of
                       None \<Rightarrow> None
                     | Some (ret1, req2) \<Rightarrow>
                         if ret1 \<noteq> 0 then Some (ret1, s7, req2)
                         else if \<not> malloc_ok k then Some (- ENOMEM, s7, req2)
                         else
                           let result = initial_result s7 output req2 flags;
                               step = initial_step (length (planes (dev s7)))
                           in case output_layers_choose True k s7 output (planes (dev s7))
                                     step result of
                                None \<Rightarrow> None
                              | Some (ret2, st) \<Rightarrow>
                                  let s8 = s7\<lparr> dev := (dev s7)\<lparr> test_commit_counter :=
                                                           ss_test_commit_counter st \<rparr>,
                                               cand := ss_cand st \<rparr>
                                  in if ret2 \<noteq> 0 then Some (ret2, s8, res_req st)
                                     else
                                       let (planes2, lays2) =
                                             install_best (planes (dev s8)) (best st) (lays s8);
                                           s9 = s8\<lparr> dev := (dev s8)\<lparr> planes := planes2 \<rparr>,
                                                    lays := lays2 \<rparr>
                                       in case apply_current k s9 (res_req st) of
                                            None \<Rightarrow> None
                                          | Some (ret3, req3) \<Rightarrow>
                                              if ret3 \<noteq> 0 then Some (ret3, s9, req3)
                                              else Some (0, layers_mark_clean s9 output, req3))"

section \<open>Evaluating the model\<close>

text \<open>The defining equations of the model, for evaluating it on concrete states.\<close>

lemmas layer_defs =
  layer_property_get_def layer_fb_get_def layer_visible_get_def layer_rect_get_def
  layer_intersects_def layer_clean_def layer_priority_update_def
  liftoff_rpi_layer_property_set_def property_position_def layer_cache_fb_info_def
  layer_candidate_plane_add_def layer_candidate_planes_reset_def

lemmas plane_defs =
  drmModeAtomicGetCursor_def drmModeAtomicSetCursor_def drmModeAtomicAddProperty_def
  drmModeGetPropertyType_def plane_prop_range_check_def plane_prop_signed_range_check_def
  plane_prop_enum_check_def plane_prop_bitmask_check_def plane_property_get_def
  plane_property_set_def plane_prop_set_def plane_apply_def plane_check_layer_fb_def

lemmas alloc_defs =
  device_test_commit_def is_comp_layer_def plane_step_init_next_def layer_allocated_get_def
  composited_layer_over_get_def allocated_layer_over_get_def allocated_plane_under_get_def
  layer_plane_compatible_get_def int_of_size_def alloc_valid_get_def
  non_comp_layers_len_get_def layer_try_def apply_current_def
  layer_fb_info_needs_realloc_def layers_fb_info_update_def layer_realloc_get_def
  reuse_permitted_def commit_state_def reuse_prev_alloc_def layers_mark_clean_def
  layers_priority_update_def log_reuse_def log_no_reuse_def initial_step_def
  initial_result_def
  liftoff_rpi_output_apply_def int_of_u64_def wrap_int_def atomic_commit_retry.simps


section \<open>Properties of the setters\<close>

lemma first_index_find: "first_index P xs = None \<longleftrightarrow> find P xs = None"
  by (induction xs) auto

lemma first_index_less: "first_index P xs = Some i \<Longrightarrow> i < length xs \<and> P (xs ! i)"
  by (induction xs arbitrary: i) (auto split: if_splits)

lemma first_index_find_Some: "first_index P xs = Some i \<Longrightarrow> find P xs = Some (xs ! i)"
  by (induction xs arbitrary: i) (auto split: if_splits)

lemma first_index_first: "first_index P xs = Some i \<Longrightarrow> j < i \<Longrightarrow> \<not> P (xs ! j)"
proof (induction xs arbitrary: i j)
  case Nil
  then show ?case by simp
next
  case (Cons x xs)
  then show ?case by (cases j) (auto split: if_splits)
qed

lemma property_position_find:
  "property_position ps prop = None \<longleftrightarrow> find (\<lambda>p. prop_index p = prop) ps = None"
  by (simp add: property_position_def first_index_find)

lemma find_update_value:
  "property_position ps prop = Some i \<Longrightarrow>
   find (\<lambda>p. prop_index p = prop) (ps[i := (ps ! i)\<lparr> prop_value := v \<rparr>]) =
     Some ((ps ! i)\<lparr> prop_value := v \<rparr>)"
  unfolding property_position_def
  by (induction ps arbitrary: i) (auto split: if_splits)

text \<open>
  C10. Setting a property the layer already holds (any property but \<open>CRTC_ID\<close>, which a
  layer can never hold) succeeds and stores the value. The changed flag after the call
  is the old flag, or true when the call succeeded and either added a property the layer
  did not hold or set \<open>FB_ID\<close> on a layer with \<open>force_comp\<close>; \<open>force_comp\<close> is cleared
  exactly in the latter case.
\<close>

theorem layer_property_set_changed_flag:
  assumes "liftoff_rpi_layer_property_set realloc_ok layer property v = (ret, layer')"
  shows "(layer_property_get layer property \<noteq> None \<and> property \<noteq> LIFTOFF_RPI_PROP_CRTC_ID \<longrightarrow>
            ret = 0 \<and>
            map_option prop_value (layer_property_get layer' property) = Some v \<and>
            length (layer_props layer') = length (layer_props layer) \<and>
            changed layer' =
              (changed layer \<or> (property = LIFTOFF_RPI_PROP_FB_ID \<and> force_comp layer))) \<and>
         changed layer' =
           (changed layer \<or>
            (ret = 0 \<and> (layer_property_get layer property = None \<or>
                        (property = LIFTOFF_RPI_PROP_FB_ID \<and> force_comp layer)))) \<and>
         force_comp layer' =
           (force_comp layer \<and> \<not> (ret = 0 \<and> property = LIFTOFF_RPI_PROP_FB_ID))"
proof (intro conjI impI)
  assume h: "layer_property_get layer property \<noteq> None \<and> property \<noteq> LIFTOFF_RPI_PROP_CRTC_ID"
  then obtain i where i: "property_position (layer_props layer) property = Some i"
    using property_position_find [of "layer_props layer" property]
    by (auto simp: layer_property_get_def)
  from assms h i find_update_value [OF i, of v]
  have held: "ret = 0 \<and>
          map_option prop_value (layer_property_get layer' property) = Some v \<and>
          length (layer_props layer') = length (layer_props layer) \<and>
          changed layer' =
            (changed layer \<or> (property = LIFTOFF_RPI_PROP_FB_ID \<and> force_comp layer))"
    by (auto simp: liftoff_rpi_layer_property_set_def layer_property_get_def Let_def
             split: if_splits)
  from held show "ret = 0" by simp
  from held show "map_option prop_value (layer_property_get layer' property) = Some v" by simp
  from held show "length (layer_props layer') = length (layer_props layer)" by simp
  from held show "changed layer' =
            (changed layer \<or> (property = LIFTOFF_RPI_PROP_FB_ID \<and> force_comp layer))" by simp
next
  show "changed layer' =
           (changed layer \<or>
            (ret = 0 \<and> (layer_property_get layer property = None \<or>
                        (property = LIFTOFF_RPI_PROP_FB_ID \<and> force_comp layer))))"
    using assms property_position_find [of "layer_props layer" property]
    by (auto simp: liftoff_rpi_layer_property_set_def layer_property_get_def Let_def
             split: if_splits option.splits)
next
  show "force_comp layer' =
           (force_comp layer \<and> \<not> (ret = 0 \<and> property = LIFTOFF_RPI_PROP_FB_ID))"
    using assms
    by (auto simp: liftoff_rpi_layer_property_set_def Let_def
             split: if_splits option.splits)
qed

definition example_alpha_layer :: liftoff_rpi_layer where
  "example_alpha_layer =
     \<lparr> layer_output = 0, layer_plane = None,
       layer_props = [\<lparr> prop_index = LIFTOFF_RPI_PROP_ALPHA, prop_id = 0, prop_dprop = None,
                        prop_value = 0x8000, prop_prev_value = 0x8000 \<rparr>],
       current_priority = 0, pending_priority = 0, force_comp = False, changed = False,
       fb_info = zero_fb_info, prev_fb_info = zero_fb_info \<rparr>"

theorem layer_property_set_changed_flag_witness:
  "layer_property_get example_alpha_layer LIFTOFF_RPI_PROP_ALPHA \<noteq> None \<and>
   fst (liftoff_rpi_layer_property_set True example_alpha_layer LIFTOFF_RPI_PROP_ALPHA 0x9000) = 0 \<and>
   map_option prop_value
     (layer_property_get
        (snd (liftoff_rpi_layer_property_set True example_alpha_layer LIFTOFF_RPI_PROP_ALPHA 0x9000))
        LIFTOFF_RPI_PROP_ALPHA) = Some 0x9000 \<and>
   \<not> changed (snd (liftoff_rpi_layer_property_set True example_alpha_layer LIFTOFF_RPI_PROP_ALPHA 0x9000))"
proof -
  have held: "layer_property_get example_alpha_layer LIFTOFF_RPI_PROP_ALPHA \<noteq> None"
    by (simp add: layer_property_get_def example_alpha_layer_def)
  have unchanged: "\<not> changed example_alpha_layer" "\<not> force_comp example_alpha_layer"
    by (simp_all add: example_alpha_layer_def)
  from layer_property_set_changed_flag [where realloc_ok = True and layer = example_alpha_layer
      and property = LIFTOFF_RPI_PROP_ALPHA and v = "0x9000", OF surjective_pairing] held unchanged
  show ?thesis by simp
qed

section \<open>Properties of the composition layer setter\<close>

text \<open>
  C9. \<open>liftoff_rpi_output_composition_layer_set\<close> with a layer of another output changes
  nothing. With a layer of the output, the layer becomes the composition layer and
  \<open>layers_changed\<close> is raised exactly when the layer was not the composition layer
  before; nothing else of the state changes.
\<close>

theorem composition_layer_set_frame:
  "(layer_output (lays s layer) \<noteq> output \<longrightarrow>
      liftoff_rpi_output_composition_layer_set s output layer = s) \<and>
   (layer_output (lays s layer) = output \<longrightarrow>
      comp_layer (outs (liftoff_rpi_output_composition_layer_set s output layer) output)
        = Some layer \<and>
      layers_changed (outs (liftoff_rpi_output_composition_layer_set s output layer) output)
        = (layers_changed (outs s output) \<or> comp_layer (outs s output) \<noteq> Some layer) \<and>
      liftoff_rpi_output_composition_layer_set s output layer =
        s\<lparr> outs := (outs s)(output := (outs s output)
               \<lparr> layers_changed :=
                   (layers_changed (outs s output) \<or> comp_layer (outs s output) \<noteq> Some layer),
                 comp_layer := Some layer \<rparr>) \<rparr>)"
  by (auto simp: liftoff_rpi_output_composition_layer_set_def Let_def)

section \<open>Example states\<close>

definition example_property :: "int \<Rightarrow> u64 \<Rightarrow> u64 \<Rightarrow> liftoff_rpi_property" where
  "example_property i v pv =
     \<lparr> prop_index = i, prop_id = 0, prop_dprop = None, prop_value = v, prop_prev_value = pv \<rparr>"

definition example_layer :: "nat \<Rightarrow> liftoff_rpi_property list \<Rightarrow> liftoff_rpi_layer" where
  "example_layer output props =
     \<lparr> layer_output = output, layer_plane = None, layer_props = props,
       current_priority = 0, pending_priority = 0, force_comp = False, changed = False,
       fb_info = zero_fb_info, prev_fb_info = zero_fb_info \<rparr>"

definition example_output :: "nat list \<Rightarrow> liftoff_rpi_output" where
  "example_output ls =
     \<lparr> out_layers = ls, comp_layer = None, crtc_id = 40, crtc_index = 0,
       alloc_reused_counter = 0, layers_changed = False \<rparr>"

definition example_device :: "liftoff_rpi_plane list \<Rightarrow> liftoff_rpi_device" where
  "example_device ps =
     \<lparr> planes = ps, outputs = [0], crtcs = [40], planes_cap = 3,
       test_commit_counter = 0, page_flip_counter = 0 \<rparr>"

text \<open>Output 0 owns the layers 0 and 1; layer 2 belongs to another output.\<close>

definition example_two_layers :: liftoff where
  "example_two_layers =
     \<lparr> dev = example_device [],
       outs = (\<lambda>_. example_output [0, 1]),
       lays = (\<lambda>l. example_layer (if l = 2 then 1 else 0)
                      [example_property LIFTOFF_RPI_PROP_FB_ID 7 7]),
       cand = (\<lambda>_. [0, 0, 0]) \<rparr>"

theorem composition_layer_set_frame_witness:
  "layer_output (lays example_two_layers 2) \<noteq> 0 \<and>
   liftoff_rpi_output_composition_layer_set example_two_layers 0 2 = example_two_layers \<and>
   layer_output (lays example_two_layers 1) = 0 \<and>
   comp_layer (outs (liftoff_rpi_output_composition_layer_set example_two_layers 0 1) 0) = Some 1 \<and>
   layers_changed (outs (liftoff_rpi_output_composition_layer_set example_two_layers 0 1) 0)"
  using composition_layer_set_frame [of example_two_layers 2 0]
        composition_layer_set_frame [of example_two_layers 1 0]
  by (simp add: example_two_layers_def example_layer_def example_output_def)

section \<open>Validity of a terminal assignment\<close>

text \<open>The step reached from \<open>step\<close> by a list of choices, one per plane.\<close>

fun path_step :: "liftoff \<Rightarrow> alloc_step \<Rightarrow> (liftoff_rpi_plane \<times> nat option) list \<Rightarrow> alloc_step" where
  "path_step s step [] = step"
| "path_step s step ((plane, layer) # cs) =
     path_step s (plane_step_init_next s step plane layer) cs"

lemma step_next_composited:
  "composited (plane_step_init_next s step plane a) =
     (composited step \<or> (\<exists>l. a = Some l \<and> is_comp_layer s l))"
  by (cases a) (simp_all add: plane_step_init_next_def Let_def)

lemma step_next_score:
  "score (plane_step_init_next s step plane a) =
     score step + (if \<exists>l. a = Some l \<and> \<not> is_comp_layer s l then 1 else 0)"
  by (cases a) (simp_all add: plane_step_init_next_def Let_def)

lemma path_step_composited:
  "composited (path_step s step cs) =
     (composited step \<or> (\<exists>(p, a) \<in> set cs. \<exists>l. a = Some l \<and> is_comp_layer s l))"
proof (induction cs arbitrary: step)
  case Nil
  then show ?case by simp
next
  case (Cons c cs)
  obtain p a where c: "c = (p, a)" by (cases c)
  show ?case unfolding c by (auto simp: Cons.IH step_next_composited)
qed

lemma path_step_score:
  "score (path_step s step cs) =
     score step + int (length (filter (\<lambda>(p, a). \<exists>l. a = Some l \<and> \<not> is_comp_layer s l) cs))"
proof (induction cs arbitrary: step)
  case Nil
  then show ?case by simp
next
  case (Cons c cs)
  obtain p a where c: "c = (p, a)" by (cases c)
  show ?case unfolding c by (simp add: Cons.IH step_next_score)
qed

lemma int_of_size_small: "n < 2 ^ 31 \<Longrightarrow> int_of_size n = int n"
  unfolding int_of_size_def
  by (simp add: signed_of_nat signed_take_bit_int_eq_self)

definition places_comp :: "liftoff \<Rightarrow> nat \<Rightarrow> (liftoff_rpi_plane \<times> nat option) list \<Rightarrow> bool" where
  "places_comp s output cs =
     (\<exists>(p, a) \<in> set cs. a \<noteq> None \<and> a = comp_layer (outs s output))"

definition placed_score :: "liftoff \<Rightarrow> nat \<Rightarrow> (liftoff_rpi_plane \<times> nat option) list \<Rightarrow> int" where
  "placed_score s output cs =
     int (length (filter (\<lambda>(p, a). a \<noteq> None \<and> a \<noteq> comp_layer (outs s output)) cs))"

text \<open>
  C3. Let \<open>cs\<close> be the assignment a terminal step was reached by: one pair of plane
  and layer (or no layer) per call of \<open>plane_step_init_next\<close>, from the first step on,
  all layers being layers of the output. With \<open>k\<close> the number of visible
  non-composition layers (fewer than \<open>2^31\<close> layers, so that the cast to \<open>int\<close> is
  exact), the assignment is invalid when the output has a composition layer that the
  assignment does not place and its score differs from \<open>k\<close>, invalid when it places
  the composition layer and its score is \<open>k\<close>, and valid otherwise.
\<close>

theorem alloc_valid_get_terminal:
  assumes own: "\<forall>(p, a) \<in> set cs. \<forall>l. a = Some l \<longrightarrow> layer_output (lays s l) = output"
    and k: "non_comp_layers_len result = non_comp_layers_len_get s output"
    and c: "has_comp_layer result = (comp_layer (outs s output) \<noteq> None)"
    and small: "length (out_layers (outs s output)) < 2 ^ 31"
  shows "alloc_valid_get result (path_step s (initial_step n) cs) =
           (\<not> (comp_layer (outs s output) \<noteq> None \<and> \<not> places_comp s output cs \<and>
               placed_score s output cs \<noteq> int (non_comp_layers_len_get s output)) \<and>
            \<not> (places_comp s output cs \<and>
               placed_score s output cs = int (non_comp_layers_len_get s output)))"
proof -
  have comp: "is_comp_layer s l = (comp_layer (outs s output) = Some l)"
    if "(p, Some l) \<in> set cs" for p l
    using own that by (auto simp: is_comp_layer_def)
  have "(\<exists>(p, a) \<in> set cs. \<exists>l. a = Some l \<and> is_comp_layer s l) = places_comp s output cs"
    unfolding places_comp_def using comp by fastforce
  then have 1: "composited (path_step s (initial_step n) cs) = places_comp s output cs"
    unfolding path_step_composited by (simp add: initial_step_def)
  have "filter (\<lambda>(p, a). \<exists>l. a = Some l \<and> \<not> is_comp_layer s l) cs =
        filter (\<lambda>(p, a). a \<noteq> None \<and> a \<noteq> comp_layer (outs s output)) cs"
    by (rule filter_cong) (use comp in auto)
  then have 2: "score (path_step s (initial_step n) cs) = placed_score s output cs"
    unfolding path_step_score placed_score_def by (simp add: initial_step_def)
  have "non_comp_layers_len_get s output \<le> length (out_layers (outs s output))"
    by (simp add: non_comp_layers_len_get_def)
  with small have 3: "int_of_size (non_comp_layers_len result) = int (non_comp_layers_len_get s output)"
    using k by (simp add: int_of_size_small)
  show ?thesis
    unfolding alloc_valid_get_def 1 2 3 c by auto
qed

definition example_plane :: "u32 \<Rightarrow> u32 \<Rightarrow> int \<Rightarrow> liftoff_rpi_property list \<Rightarrow> liftoff_rpi_plane" where
  "example_plane ident type zpos props =
     \<lparr> plane_layer = None, plane_props = props, in_formats_blob = None,
       plane_id = ident, plane_type = type, possible_crtcs = 1, plane_zpos = zpos \<rparr>"

text \<open>Output 0 with the layers 0 and 1, layer 1 being its composition layer.\<close>

definition example_with_comp :: liftoff where
  "example_with_comp =
     example_two_layers\<lparr> outs := (\<lambda>_. (example_output [0, 1])\<lparr> comp_layer := Some 1 \<rparr>) \<rparr>"

definition example_result :: alloc_result where
  "example_result =
     \<lparr> res_req = [], res_flags = 0, planes_len = 1, best = [None], best_score = - 1,
       has_comp_layer = True, non_comp_layers_len = 1 \<rparr>"

theorem alloc_valid_get_terminal_witness:
  "non_comp_layers_len_get example_with_comp 0 = 1 \<and>
   alloc_valid_get example_result
     (path_step example_with_comp (initial_step 1)
        [(example_plane 1 DRM_PLANE_TYPE_PRIMARY 0 [], Some 0)]) \<and>
   \<not> alloc_valid_get example_result
     (path_step example_with_comp (initial_step 1)
        [(example_plane 1 DRM_PLANE_TYPE_PRIMARY 0 [], None)])"
proof -
  have k: "non_comp_layers_len_get example_with_comp 0 = 1"
    by (simp add: non_comp_layers_len_get_def example_with_comp_def example_two_layers_def
        example_output_def example_layer_def example_property_def layer_visible_get_def
        layer_property_get_def)
  have own: "\<forall>(p, a) \<in> set [(example_plane 1 DRM_PLANE_TYPE_PRIMARY 0 [], a0)].
               \<forall>l. a = Some l \<longrightarrow> layer_output (lays example_with_comp l) = 0"
    if "a0 = Some 0 \<or> a0 = None" for a0
    using that by (auto simp: example_with_comp_def example_two_layers_def example_layer_def)
  have r1: "non_comp_layers_len example_result = non_comp_layers_len_get example_with_comp 0"
    by (simp add: k example_result_def)
  have r: "has_comp_layer example_result = (comp_layer (outs example_with_comp 0) \<noteq> None)"
    "length (out_layers (outs example_with_comp 0)) < 2 ^ 31"
    by (simp_all add: example_result_def example_with_comp_def example_output_def)
  show ?thesis
    using alloc_valid_get_terminal [OF own r1 r, of "Some 0" 1]
          alloc_valid_get_terminal [OF own r1 r, of None 1] k
    by (simp add: places_comp_def placed_score_def example_with_comp_def example_output_def)
qed

section \<open>The reuse guard\<close>

text \<open>
  The guard in the words of the specification: a changed property is harmless when it
  is \<open>IN_FENCE_FD\<close> or \<open>FB_DAMAGE_CLIPS\<close>, when it is \<open>ALPHA\<close> and neither value is
  \<open>0\<close> or \<open>0xFFFF\<close>, or when it is \<open>FB_ID\<close>, both values are nonzero and the cached
  framebuffer description is unchanged.
\<close>

definition fb_info_unchanged :: "liftoff_rpi_layer \<Rightarrow> bool" where
  "fb_info_unchanged layer =
     (fb_width (fb_info layer) = fb_width (prev_fb_info layer) \<and>
      fb_height (fb_info layer) = fb_height (prev_fb_info layer) \<and>
      fb_pixel_format (fb_info layer) = fb_pixel_format (prev_fb_info layer) \<and>
      fb_modifier (fb_info layer) = fb_modifier (prev_fb_info layer))"

definition spec_harmless_change :: "liftoff_rpi_layer \<Rightarrow> liftoff_rpi_property \<Rightarrow> bool" where
  "spec_harmless_change layer prop =
     (if prop_index prop = LIFTOFF_RPI_PROP_IN_FENCE_FD \<or>
         prop_index prop = LIFTOFF_RPI_PROP_FB_DAMAGE_CLIPS then True
      else if prop_index prop = LIFTOFF_RPI_PROP_ALPHA then
        prop_value prop \<noteq> 0 \<and> prop_value prop \<noteq> 0xFFFF \<and>
        prop_prev_value prop \<noteq> 0 \<and> prop_prev_value prop \<noteq> 0xFFFF
      else if prop_index prop = LIFTOFF_RPI_PROP_FB_ID then
        prop_value prop \<noteq> 0 \<and> prop_prev_value prop \<noteq> 0 \<and> fb_info_unchanged layer
      else False)"

definition spec_reuse_permitted :: "liftoff \<Rightarrow> nat \<Rightarrow> bool" where
  "spec_reuse_permitted s output =
     (\<not> layers_changed (outs s output) \<and>
      (\<forall>l \<in> set (out_layers (outs s output)).
         \<not> changed (lays s l) \<and>
         (\<forall>prop \<in> set (layer_props (lays s l)).
            prop_value prop \<noteq> prop_prev_value prop \<longrightarrow> spec_harmless_change (lays s l) prop)))"

definition fb_id_keeps_alloc :: "liftoff_rpi_layer \<Rightarrow> liftoff_rpi_property \<Rightarrow> bool" where
  "fb_id_keeps_alloc layer prop =
     ((prop_value prop = 0 \<and> prop_prev_value prop = 0) \<or>
      (prop_value prop \<noteq> 0 \<and> prop_prev_value prop \<noteq> 0 \<and> fb_info_unchanged layer))"

definition amended_reuse_permitted :: "liftoff \<Rightarrow> nat \<Rightarrow> bool" where
  "amended_reuse_permitted s output =
     (\<not> layers_changed (outs s output) \<and>
      (\<forall>l \<in> set (out_layers (outs s output)).
         \<not> changed (lays s l) \<and>
         (\<forall>prop \<in> set (layer_props (lays s l)).
            (prop_index prop = LIFTOFF_RPI_PROP_FB_ID \<longrightarrow> fb_id_keeps_alloc (lays s l) prop) \<and>
            (prop_index prop \<noteq> LIFTOFF_RPI_PROP_FB_ID \<and> prop_value prop \<noteq> prop_prev_value prop
               \<longrightarrow> spec_harmless_change (lays s l) prop))))"

lemma layer_realloc_props_iff:
  "layer_realloc_props layer props =
     (\<exists>prop \<in> set props.
        \<not> ((prop_index prop = LIFTOFF_RPI_PROP_FB_ID \<longrightarrow> fb_id_keeps_alloc layer prop) \<and>
           (prop_index prop \<noteq> LIFTOFF_RPI_PROP_FB_ID \<and> prop_value prop \<noteq> prop_prev_value prop
              \<longrightarrow> spec_harmless_change layer prop)))"
proof (induction props)
  case Nil
  then show ?case by simp
next
  case (Cons p props)
  have fb: "layer_fb_info_needs_realloc (fb_info layer) (prev_fb_info layer) = (\<not> fb_info_unchanged layer)"
    by (auto simp: layer_fb_info_needs_realloc_def fb_info_unchanged_def)
  show ?case
    by (simp add: Cons.IH fb fb_id_keeps_alloc_def spec_harmless_change_def)
qed

text \<open>
  C4, as amended. The guard permits reuse exactly when \<open>layers_changed\<close> is false and,
  for every layer, \<open>changed\<close> is false, every \<open>FB_ID\<close> property (whether or not its
  value differs from the snapshot) has old and new value both zero, or both nonzero with
  the cached width, height, pixel format and modifier unchanged, and every other
  property whose value differs from its snapshot is harmless in the sense of the claim.
\<close>

theorem reuse_permitted_amended:
  "reuse_permitted s output = amended_reuse_permitted s output"
  unfolding reuse_permitted_def amended_reuse_permitted_def list_ex_iff layer_realloc_get_def
    layer_realloc_props_iff
  by auto

text \<open>
  The claim as stated fails: a layer whose \<open>FB_ID\<close> value is unchanged (and nonzero)
  while the framebuffer behind it now has another width. No property value differs
  from its snapshot, yet the guard refuses reuse.
\<close>

definition example_fb_resized :: liftoff where
  "example_fb_resized =
     example_two_layers
       \<lparr> lays := (\<lambda>_. (example_layer 0 [example_property LIFTOFF_RPI_PROP_FB_ID 7 7])
                     \<lparr> fb_info := zero_fb_info\<lparr> fb_id := 7, fb_width := 100 \<rparr>,
                       prev_fb_info := zero_fb_info\<lparr> fb_id := 7, fb_width := 200 \<rparr> \<rparr>) \<rparr>"

theorem reuse_guard_counterexample:
  "spec_reuse_permitted example_fb_resized 0 \<and> \<not> reuse_permitted example_fb_resized 0"
  by (simp add: spec_reuse_permitted_def reuse_permitted_def example_fb_resized_def
      example_two_layers_def example_output_def example_layer_def example_property_def
      layer_realloc_get_def layer_fb_info_needs_realloc_def zero_fb_info_def)

theorem reuse_permitted_amended_witness:
  "reuse_permitted example_two_layers 0 \<and> amended_reuse_permitted example_two_layers 0 \<and>
   \<not> amended_reuse_permitted example_fb_resized 0"
  using reuse_permitted_amended [of example_two_layers 0]
        reuse_permitted_amended [of example_fb_resized 0]
  by (simp add: reuse_permitted_def example_fb_resized_def
      example_two_layers_def example_output_def example_layer_def example_property_def
      layer_realloc_get_def layer_fb_info_needs_realloc_def zero_fb_info_def)

section \<open>The order of the plane list\<close>

text \<open>
  The invariant of the plane list: a PRIMARY plane may stand anywhere before the first
  plane of another type; every plane after a plane of another type is of another type
  too and has no higher zpos.
\<close>

fun planes_ordered :: "liftoff_rpi_plane list \<Rightarrow> bool" where
  "planes_ordered [] = True"
| "planes_ordered (p # ps) =
     (if plane_type p = DRM_PLANE_TYPE_PRIMARY then planes_ordered ps
      else (\<forall>q \<in> set ps. plane_type q \<noteq> DRM_PLANE_TYPE_PRIMARY \<and> plane_zpos q \<le> plane_zpos p) \<and>
           planes_ordered ps)"

lemma set_plane_list_insert: "set (plane_list_insert x ps) = insert x (set ps)"
  by (induction ps) auto

lemma length_plane_list_insert: "length (plane_list_insert x ps) = Suc (length ps)"
  by (induction ps) auto

lemma planes_ordered_insert:
  "planes_ordered ps \<Longrightarrow> plane_type x \<noteq> DRM_PLANE_TYPE_PRIMARY \<Longrightarrow>
   planes_ordered (plane_list_insert x ps)"
proof (induction ps)
  case Nil
  then show ?case by simp
next
  case (Cons cur rest)
  show ?case
  proof (cases "plane_type cur \<noteq> DRM_PLANE_TYPE_PRIMARY \<and> plane_zpos x \<ge> plane_zpos cur")
    case True
    with Cons.prems show ?thesis by (auto split: if_splits)
  next
    case False
    with Cons show ?thesis by (auto simp: set_plane_list_insert split: if_splits)
  qed
qed

lemma plane_create_ordered:
  assumes "liftoff_rpi_plane_create k d ident = (Some plane, d1)" "planes_ordered (planes d)"
  shows "planes_ordered (planes d1) \<and> length (planes d1) = Suc (length (planes d))"
  using assms
  by (auto simp: liftoff_rpi_plane_create_def Let_def planes_ordered_insert
        length_plane_list_insert
      split: if_splits option.splits prod.splits)

lemma planes_create_all_ordered:
  "planes_create_all k d idents = Some d1 \<Longrightarrow> planes_ordered (planes d) \<Longrightarrow>
   planes_ordered (planes d1) \<and> length (planes d1) = length (planes d) + length idents"
proof (induction idents arbitrary: d)
  case Nil
  then show ?case by simp
next
  case (Cons ident idents)
  from Cons.prems(1) obtain plane d2 where
    c: "liftoff_rpi_plane_create k d ident = (Some plane, d2)"
    and r: "planes_create_all k d2 idents = Some d1"
    by (auto split: prod.splits option.splits)
  from plane_create_ordered [OF c Cons.prems(2)] Cons.IH [OF r] show ?case by simp
qed

lemma planes_ordered_sorted:
  "planes_ordered ps \<Longrightarrow> \<forall>q \<in> set ps. plane_type q \<noteq> DRM_PLANE_TYPE_PRIMARY \<Longrightarrow>
   sorted_wrt (\<lambda>a b. plane_zpos a \<ge> plane_zpos b) ps"
  by (induction ps) auto

lemma planes_ordered_one_primary:
  assumes "planes_ordered ps"
    and "length (filter (\<lambda>p. plane_type p = DRM_PLANE_TYPE_PRIMARY) ps) = 1"
  shows "ps \<noteq> [] \<and> plane_type (hd ps) = DRM_PLANE_TYPE_PRIMARY \<and>
         (\<forall>q \<in> set (tl ps). plane_type q \<noteq> DRM_PLANE_TYPE_PRIMARY) \<and>
         sorted_wrt (\<lambda>a b. plane_zpos a \<ge> plane_zpos b) (tl ps)"
proof (cases ps)
  case Nil
  with assms(2) show ?thesis by simp
next
  case (Cons p rest)
  have prim: "plane_type p = DRM_PLANE_TYPE_PRIMARY"
  proof (rule ccontr)
    assume np: "plane_type p \<noteq> DRM_PLANE_TYPE_PRIMARY"
    with assms(1) Cons have "\<forall>q \<in> set rest. plane_type q \<noteq> DRM_PLANE_TYPE_PRIMARY" by simp
    then have "filter (\<lambda>p. plane_type p = DRM_PLANE_TYPE_PRIMARY) rest = []"
      by (simp add: filter_empty_conv)
    with np assms(2) Cons show False by simp
  qed
  with assms(2) Cons have "filter (\<lambda>p. plane_type p = DRM_PLANE_TYPE_PRIMARY) rest = []" by simp
  then have none: "\<forall>q \<in> set rest. plane_type q \<noteq> DRM_PLANE_TYPE_PRIMARY"
    by (simp add: filter_empty_conv)
  from assms(1) Cons prim have "planes_ordered rest" by simp
  from planes_ordered_sorted [OF this none] prim none Cons show ?thesis by simp
qed

text \<open>
  C8. After any sequence of successful \<open>liftoff_rpi_plane_create\<close> calls on a device
  without planes, whatever the order of the calls: every plane is in the list, and if
  exactly one of them is PRIMARY, it is the first of the list, and the planes after it
  are in descending order of zpos.
\<close>

theorem plane_create_order:
  assumes "planes_create_all k d idents = Some d1"
    and "planes d = []"
    and "length (filter (\<lambda>p. plane_type p = DRM_PLANE_TYPE_PRIMARY) (planes d1)) = 1"
  shows "length (planes d1) = length idents \<and>
         plane_type (hd (planes d1)) = DRM_PLANE_TYPE_PRIMARY \<and>
         (\<forall>q \<in> set (tl (planes d1)). plane_type q \<noteq> DRM_PLANE_TYPE_PRIMARY) \<and>
         sorted_wrt (\<lambda>a b. plane_zpos a \<ge> plane_zpos b) (tl (planes d1))"
proof -
  from assms(2) have "planes_ordered (planes d)" by simp
  from planes_create_all_ordered [OF assms(1) this] assms(2)
  have o: "planes_ordered (planes d1)" and l: "length (planes d1) = length idents" by simp_all
  from planes_ordered_one_primary [OF o assms(3)] l show ?thesis by simp
qed


definition example_dprop :: "u32 \<Rightarrow> string \<Rightarrow> drmModePropertyRes" where
  "example_dprop ident name =
     \<lparr> dprop_id = ident, dprop_flags = 0x40, dprop_name = name, dprop_values = [],
       dprop_enums = [] \<rparr>"

text \<open>
  A kernel with an overlay (plane 31, zpos 1), a primary plane (32, zpos 0) and a cursor
  plane (33, no zpos property). Property 10 is \<open>type\<close>, 11 is \<open>zpos\<close>, 12 is \<open>FB_ID\<close>,
  13 is \<open>CRTC_ID\<close>. Test commits succeed.
\<close>

definition example_drm :: drm where
  "example_drm =
     \<lparr> drm_add_property = (\<lambda>_ _ _ _. 0),
       drm_atomic_commit = (\<lambda>_ _ _. 0),
       drm_get_fb2 = (\<lambda>_. Inl EINVAL),
       drm_close_buffer_handle = (\<lambda>_. 0),
       drm_get_plane = (\<lambda>i. Some (i, 1)),
       drm_object_get_properties =
         (\<lambda>i. if i = 31 then Some [(10, 0), (11, 1), (12, 0), (13, 0)]
              else if i = 32 then Some [(10, 1), (11, 0), (12, 0), (13, 0)]
              else if i = 33 then Some [(10, 2), (12, 0), (13, 0)]
              else None),
       drm_get_property =
         (\<lambda>i. if i = 10 then Some (example_dprop 10 ''type'')
              else if i = 11 then Some (example_dprop 11 ''zpos'')
              else if i = 12 then Some (example_dprop 12 ''FB_ID'')
              else if i = 13 then Some (example_dprop 13 ''CRTC_ID'')
              else None),
       drm_get_property_blob = (\<lambda>_. None),
       calloc_ok = True, malloc_ok = True \<rparr>"

lemma example_planes_created:
  "map_option (\<lambda>d. map (\<lambda>p. (plane_id p, plane_type p, plane_zpos p)) (planes d))
     (planes_create_all example_drm (example_device []) [31, 32, 33]) =
   Some [(32, 1, 0), (33, 2, 2), (31, 0, 1)]"
  by (simp add: liftoff_rpi_plane_create_def example_drm_def example_device_def
      example_dprop_def prop_name_index_def int_of_u64_def zero_property_def
      plane_zpos_guess_def Let_def)

theorem plane_create_order_witness:
  "\<exists>d1. planes_create_all example_drm (example_device []) [31, 32, 33] = Some d1 \<and>
        planes (example_device []) = [] \<and>
        length (filter (\<lambda>p. plane_type p = DRM_PLANE_TYPE_PRIMARY) (planes d1)) = 1 \<and>
        map plane_id (planes d1) = [32, 33, 31] \<and>
        plane_type (hd (planes d1)) = DRM_PLANE_TYPE_PRIMARY \<and>
        sorted_wrt (\<lambda>a b. plane_zpos a \<ge> plane_zpos b) (tl (planes d1))"
proof -
  from example_planes_created obtain d1 where
    c: "planes_create_all example_drm (example_device []) [31, 32, 33] = Some d1"
    and m: "map (\<lambda>p. (plane_id p, plane_type p, plane_zpos p)) (planes d1) =
              [(32, 1, 0), (33, 2, 2), (31, 0, 1)]"
    by auto
  from m obtain p1 p2 p3 where ps: "planes d1 = [p1, p2, p3]"
    and t: "plane_type p1 = 1" "plane_type p2 = 2" "plane_type p3 = 0"
    and i: "plane_id p1 = 32" "plane_id p2 = 33" "plane_id p3 = 31"
    by (auto simp: map_eq_Cons_conv)
  have e: "planes (example_device []) = []" by (simp add: example_device_def)
  have one: "length (filter (\<lambda>p. plane_type p = DRM_PLANE_TYPE_PRIMARY) (planes d1)) = 1"
    by (simp add: ps t)
  from plane_create_order [OF c e one] c e one ps i show ?thesis by simp
qed

section \<open>Staging a layer on a plane\<close>

text \<open>
  A plane whose \<open>alpha\<close> property (id 14) is a range from 0 to 0xFFFF with the given
  flags, next to \<open>FB_ID\<close> (12) and \<open>CRTC_ID\<close> (13).
\<close>

definition example_alpha_plane :: "u32 \<Rightarrow> liftoff_rpi_plane" where
  "example_alpha_plane flags =
     example_plane 31 DRM_PLANE_TYPE_OVERLAY 1
       [\<lparr> prop_index = LIFTOFF_RPI_PROP_FB_ID, prop_id = 12,
          prop_dprop = Some (example_dprop 12 ''FB_ID''), prop_value = 0, prop_prev_value = 0 \<rparr>,
        \<lparr> prop_index = LIFTOFF_RPI_PROP_CRTC_ID, prop_id = 13,
          prop_dprop = Some (example_dprop 13 ''CRTC_ID''), prop_value = 0, prop_prev_value = 0 \<rparr>,
        \<lparr> prop_index = LIFTOFF_RPI_PROP_ALPHA, prop_id = 14,
          prop_dprop = Some \<lparr> dprop_id = 14, dprop_flags = flags, dprop_name = ''alpha'',
                               dprop_values = [0, 0xFFFF], dprop_enums = [] \<rparr>,
          prop_value = 0, prop_prev_value = 0 \<rparr>]"

definition example_alpha_state :: "u64 \<Rightarrow> liftoff" where
  "example_alpha_state a =
     example_two_layers
       \<lparr> lays := (\<lambda>_. example_layer 0 [example_property LIFTOFF_RPI_PROP_FB_ID 7 7,
                                        example_property LIFTOFF_RPI_PROP_ALPHA a a]) \<rparr>"

text \<open>
  C2 at two inputs. The validating setter \<open>plane_prop_set\<close> refuses \<open>alpha\<close> on a plane
  where the property is immutable, and refuses the value \<open>0x1FFFF\<close> where its range
  ends at \<open>0xFFFF\<close>. \<open>plane_apply\<close> stages the same layer property in both cases and
  returns 0: its loop adds the layer's properties with \<open>plane_property_set\<close>, which
  validates nothing.
\<close>

theorem plane_apply_stages_unvalidated:
  "plane_prop_set example_drm (example_alpha_plane (DRM_MODE_PROP_RANGE OR DRM_MODE_PROP_IMMUTABLE))
     [] LIFTOFF_RPI_PROP_ALPHA 0x8000 = Some (- EINVAL, []) \<and>
   plane_apply example_drm (example_alpha_state 0x8000)
     (example_alpha_plane (DRM_MODE_PROP_RANGE OR DRM_MODE_PROP_IMMUTABLE)) (Some 0) [] =
     Some (0, [(31, 13, 40), (31, 12, 7), (31, 14, 0x8000)]) \<and>
   plane_prop_set example_drm (example_alpha_plane DRM_MODE_PROP_RANGE)
     [] LIFTOFF_RPI_PROP_ALPHA 0x1FFFF = Some (- EINVAL, []) \<and>
   plane_apply example_drm (example_alpha_state 0x1FFFF)
     (example_alpha_plane DRM_MODE_PROP_RANGE) (Some 0) [] =
     Some (0, [(31, 13, 40), (31, 12, 7), (31, 14, 0x1FFFF)])"
  by (simp add: plane_prop_set_def plane_apply_def plane_property_get_def
      plane_property_set_def drmModeAtomicAddProperty_def drmModeAtomicGetCursor_def
      drmModeGetPropertyType_def plane_prop_range_check_def
      example_alpha_plane_def example_alpha_state_def example_plane_def example_dprop_def
      example_drm_def example_two_layers_def example_layer_def example_output_def
      example_property_def)

section \<open>The format pre-filter\<close>

text \<open>
  What the \<open>IN_FORMATS\<close> blob says: the plane takes a format with a modifier when the
  format stands at some index of the format list and some entry of that modifier has
  the index in its window of 64 formats, with the bit of the index set.
\<close>

definition blob_admits :: "drm_format_modifier_blob \<Rightarrow> u32 \<Rightarrow> u64 \<Rightarrow> bool" where
  "blob_admits blob format modifier =
     (\<exists>i \<in> {0 ..< length (blob_formats blob)}.
        blob_formats blob ! i = format \<and>
        (\<exists>m \<in> set (blob_modifiers blob).
           dfm_modifier m = modifier \<and>
           unat (dfm_offset m) \<le> i \<and> i < unat (dfm_offset m) + 64 \<and>
           bit (dfm_formats m) (i - unat (dfm_offset m))))"

lemma plane_check_layer_fb_cannot_reject:
  "fb_id (fb_info layer) = 0 \<or> fb_flags (fb_info layer) AND DRM_MODE_FB_MODIFIERS = 0 \<or>
   in_formats_blob plane = None \<Longrightarrow> plane_check_layer_fb plane layer"
  by (simp add: plane_check_layer_fb_def)

text \<open>
  A plane with 65 formats (the format codes 100 to 164) needs two windows per modifier.
  Modifier 5 goes with the first 64 formats (the entry at offset 0) and with the 65th
  (the entry at offset 64).
\<close>

definition example_wide_blob :: drm_format_modifier_blob where
  "example_wide_blob =
     \<lparr> blob_formats = map (\<lambda>n. word_of_nat (100 + n)) [0 ..< 65],
       blob_modifiers =
         [\<lparr> dfm_formats = - 1, dfm_offset = 0, dfm_modifier = 5 \<rparr>,
          \<lparr> dfm_formats = 1, dfm_offset = 64, dfm_modifier = 5 \<rparr>] \<rparr>"

definition example_wide_layer :: liftoff_rpi_layer where
  "example_wide_layer =
     (example_layer 0 [example_property LIFTOFF_RPI_PROP_FB_ID 7 7])
       \<lparr> fb_info := zero_fb_info\<lparr> fb_id := 7, fb_pixel_format := 164, fb_modifier := 5,
                                  fb_flags := DRM_MODE_FB_MODIFIERS \<rparr> \<rparr>"

text \<open>
  C6 at this input. The blob admits format 164 with modifier 5 (index 64, second
  entry), and \<open>plane_check_layer_fb\<close> returns false: its search for the modifier stops
  at the first entry, whose window ends before index 64.
\<close>

theorem plane_check_layer_fb_second_window:
  "blob_admits example_wide_blob 164 5 \<and>
   \<not> plane_check_layer_fb
       ((example_plane 31 DRM_PLANE_TYPE_OVERLAY 1 [])\<lparr> in_formats_blob := Some example_wide_blob \<rparr>)
       example_wide_layer"
  by code_simp

section \<open>Marking the layers clean\<close>

text \<open>
  One PRIMARY plane with \<open>FB_ID\<close> and \<open>CRTC_ID\<close>, one output, one layer that the client
  has just created and given a framebuffer and a damage property.
\<close>

definition example_primary :: liftoff_rpi_plane where
  "example_primary =
     example_plane 32 DRM_PLANE_TYPE_PRIMARY 0
       [\<lparr> prop_index = LIFTOFF_RPI_PROP_FB_ID, prop_id = 12,
          prop_dprop = Some (example_dprop 12 ''FB_ID''), prop_value = 0, prop_prev_value = 0 \<rparr>,
        \<lparr> prop_index = LIFTOFF_RPI_PROP_CRTC_ID, prop_id = 13,
          prop_dprop = Some (example_dprop 13 ''CRTC_ID''), prop_value = 0, prop_prev_value = 0 \<rparr>]"

definition example_fresh :: liftoff where
  "example_fresh =
     \<lparr> dev = example_device [example_primary],
       outs = (\<lambda>_. (example_output [0])\<lparr> layers_changed := True \<rparr>),
       lays = (\<lambda>_. (example_layer 0 [example_property LIFTOFF_RPI_PROP_FB_ID 7 0,
                                        example_property LIFTOFF_RPI_PROP_FB_DAMAGE_CLIPS 0 0])
                     \<lparr> changed := True \<rparr>),
       cand = (\<lambda>_. [0, 0, 0]) \<rparr>"

text \<open>The client's next frame: only \<open>FB_DAMAGE_CLIPS\<close> of layer 0 is set anew.\<close>

definition example_damage :: "liftoff \<Rightarrow> liftoff" where
  "example_damage s =
     s\<lparr> lays := (lays s)
          (0 := snd (liftoff_rpi_layer_property_set True (lays s 0)
                       LIFTOFF_RPI_PROP_FB_DAMAGE_CLIPS 1)) \<rparr>"

definition layer_is_clean :: "liftoff_rpi_layer \<Rightarrow> bool" where
  "layer_is_clean layer =
     (\<not> changed layer \<and> list_all (\<lambda>p. prop_prev_value p = prop_value p) (layer_props layer))"

lemmas example_defs =
  example_primary_def example_fresh_def example_damage_def example_plane_def
  example_dprop_def example_device_def example_output_def example_layer_def
  example_property_def example_drm_def zero_fb_info_def layer_is_clean_def

text \<open>
  C1 at this input. The first \<open>liftoff_rpi_output_apply\<close> computes an allocation,
  binds the layer to plane 32 and marks it clean. After the client has set
  \<open>FB_DAMAGE_CLIPS\<close>, the second call takes the reuse path and returns 0, and the
  snapshot of \<open>FB_DAMAGE_CLIPS\<close> is still the old value: the reuse path returns
  without \<open>layers_mark_clean\<close>.
\<close>

theorem apply_reuse_leaves_snapshot:
  "(case liftoff_rpi_output_apply example_drm example_fresh 0 [] 0 of
      None \<Rightarrow> False
    | Some (ret1, s1, req1) \<Rightarrow>
        ret1 = 0 \<and> layer_is_clean (lays s1 0) \<and> layer_plane (lays s1 0) = Some 32 \<and>
        (case liftoff_rpi_output_apply example_drm (example_damage s1) 0 [] 0 of
           None \<Rightarrow> False
         | Some (ret2, s2, req2) \<Rightarrow>
             ret2 = 0 \<and> alloc_reused_counter (outs s2 0) = 1 \<and>
             \<not> layer_is_clean (lays s2 0) \<and>
             map (\<lambda>p. (prop_index p, prop_value p, prop_prev_value p)) (layer_props (lays s2 0)) =
               [(LIFTOFF_RPI_PROP_FB_ID, 7, 7), (LIFTOFF_RPI_PROP_FB_DAMAGE_CLIPS, 1, 0)]))"
  by (simp add: layer_defs plane_defs alloc_defs example_defs Let_def)

section \<open>The search and the request\<close>

text \<open>
  Staging a layer on a plane either fails and leaves the request as it was, or succeeds
  and only appends to it.
\<close>

lemma plane_property_set_req:
  "plane_property_set k plane req ident v = (ret, req1) \<Longrightarrow>
   (ret \<noteq> 0 \<longrightarrow> req1 = req) \<and> (ret = 0 \<longrightarrow> req1 = req @ [(plane_id plane, ident, v)])"
  by (auto simp: plane_property_set_def drmModeAtomicAddProperty_def Let_def split: if_splits)

lemma plane_prop_set_req:
  "plane_prop_set k plane req index v = Some (ret, req1) \<Longrightarrow>
   (ret \<noteq> 0 \<longrightarrow> req1 = req) \<and> (ret = 0 \<longrightarrow> (\<exists>ys. req1 = req @ ys))"
  unfolding plane_prop_set_def Let_def
  by (auto split: option.splits if_splits dest!: plane_property_set_req)

lemma plane_apply_props_req:
  "plane_apply_props k plane c props req = (ret, req1) \<Longrightarrow> nat c \<le> length req \<Longrightarrow>
   (ret \<noteq> 0 \<longrightarrow> req1 = take (nat c) req) \<and> (ret = 0 \<longrightarrow> (\<exists>ys. req1 = req @ ys))"
proof (induction props arbitrary: req)
  case Nil
  then show ?case by simp
next
  case (Cons lprop lprops)
  show ?case
  proof (cases "prop_index lprop = LIFTOFF_RPI_PROP_ZPOS")
    case True
    with Cons show ?thesis by simp
  next
    case nz: False
    show ?thesis
    proof (cases "plane_property_get plane (prop_index lprop)")
      case None
      with nz Cons show ?thesis
        by (auto simp: drmModeAtomicSetCursor_def split: if_splits)
    next
      case (Some pprop)
      obtain r rq where ps: "plane_property_set k plane req (prop_id pprop) (prop_value lprop) = (r, rq)"
        by (cases "plane_property_set k plane req (prop_id pprop) (prop_value lprop)")
      note pr = plane_property_set_req [OF ps]
      show ?thesis
      proof (cases "r = 0")
        case True
        with pr have rq: "rq = req @ [(plane_id plane, prop_id pprop, prop_value lprop)]" by simp
        from Cons.prems nz Some ps True have "plane_apply_props k plane c lprops rq = (ret, req1)"
          by simp
        from Cons.IH [OF this] Cons.prems(2) rq show ?thesis by auto
      next
        case False
        with pr have "rq = req" by simp
        with Cons.prems nz Some ps False show ?thesis
          by (auto simp: drmModeAtomicSetCursor_def)
      qed
    qed
  qed
qed

lemma plane_apply_req:
  assumes "plane_apply k s plane (Some l) req = Some (ret, req1)"
  shows "(ret \<noteq> 0 \<longrightarrow> req1 = req) \<and> (ret = 0 \<longrightarrow> (\<exists>ys. req1 = req @ ys))"
proof -
  let ?v = "ucast (crtc_id (outs s (layer_output (lays s l)))) :: u64"
  from assms obtain r rq where
    c: "plane_prop_set k plane req LIFTOFF_RPI_PROP_CRTC_ID ?v = Some (r, rq)"
    by (auto simp: plane_apply_def Let_def split: option.splits)
  note pr = plane_prop_set_req [OF c]
  show ?thesis
  proof (cases "r = 0")
    case False
    with assms c pr show ?thesis by (auto simp: plane_apply_def Let_def)
  next
    case True
    with pr obtain ys where rq: "rq = req @ ys" by auto
    from assms c True have
      p: "plane_apply_props k plane (drmModeAtomicGetCursor req) (layer_props (lays s l)) rq = (ret, req1)"
      by (simp add: plane_apply_def Let_def)
    have "nat (drmModeAtomicGetCursor req) \<le> length rq"
      by (simp add: drmModeAtomicGetCursor_def rq)
    from plane_apply_props_req [OF p this] rq show ?thesis
      by (auto simp: drmModeAtomicGetCursor_def)
  qed
qed

text \<open>
  What an iteration of the layer loop does to the search state, by its outcome.
\<close>

definition keeps_best :: "search_state \<Rightarrow> search_state \<Rightarrow> bool" where
  "keeps_best a b =
     (planes_len b = planes_len a \<and> best b = best a \<and> best_score b = best_score a \<and>
      res_flags b = res_flags a \<and> has_comp_layer b = has_comp_layer a \<and>
      non_comp_layers_len b = non_comp_layers_len a)"

lemma device_test_commit_keeps:
  "device_test_commit k st = Some (ret, st1) \<Longrightarrow> keeps_best st st1 \<and> res_req st1 = res_req st"
  by (auto simp: device_test_commit_def keeps_best_def Let_def split: option.splits)

lemma layer_try_Next:
  assumes "layer_try k s plane step cur layer st = Next st1"
    and "cur = int (length (res_req st))"
  shows "keeps_best st st1 \<and> res_req st1 = res_req st"
proof (cases "layer_plane (lays s layer) \<noteq> None \<or> \<not> layer_visible_get (lays s layer) \<or>
               \<not> layer_plane_compatible_get s step layer plane")
  case True
  with assms show ?thesis by (auto simp: layer_try_def keeps_best_def split: if_splits)
next
  case False
  with assms(1) obtain ret req1 where
    pa: "plane_apply k s plane (Some layer) (res_req st) = Some (ret, req1)"
    by (auto simp: layer_try_def split: option.splits)
  note pr = plane_apply_req [OF pa]
  show ?thesis
  proof (cases "ret = 0")
    case nz: False
    with pr have "req1 = res_req st" by simp
    with assms(1) False pa nz show ?thesis
      by (auto simp: layer_try_def keeps_best_def split: if_splits)
  next
    case z: True
    with pr obtain ys where ys: "req1 = res_req st @ ys" by auto
    let ?st1 = "st\<lparr> res_req := req1,
                      ss_cand := (ss_cand st)
                        (layer := layer_candidate_plane_add (ss_cand st layer) plane) \<rparr>"
    show ?thesis
    proof (cases "force_comp (lays s layer) \<or> \<not> plane_check_layer_fb plane (lays s layer)")
      case True
      with assms False pa z ys show ?thesis
        by (auto simp: layer_try_def keeps_best_def Let_def drmModeAtomicSetCursor_def)
    next
      case nf: False
      with assms(1) False pa z obtain r2 st2 where
        d: "device_test_commit k ?st1 = Some (r2, st2)"
        by (auto simp: layer_try_def Let_def split: option.splits)
      from device_test_commit_keeps [OF d]
      have k2: "keeps_best ?st1 st2" and r2: "res_req st2 = req1" by simp_all
      from assms(1) False pa z nf d
      have "st1 = st2\<lparr> res_req := drmModeAtomicSetCursor (res_req st2) cur \<rparr>"
        by (auto simp: layer_try_def Let_def split: if_splits)
      with k2 r2 ys assms(2) show ?thesis
        by (auto simp: keeps_best_def drmModeAtomicSetCursor_def)
    qed
  qed
qed

lemma layer_try_Abort:
  assumes "layer_try k s plane step cur layer st = Abort ret st1"
  shows "keeps_best st st1 \<and> ret \<noteq> 0"
proof -
  from assms have t: "\<not> (layer_plane (lays s layer) \<noteq> None \<or> \<not> layer_visible_get (lays s layer) \<or>
               \<not> layer_plane_compatible_get s step layer plane)"
    by (auto simp: layer_try_def split: if_splits)
  with assms obtain r req1 where
    pa: "plane_apply k s plane (Some layer) (res_req st) = Some (r, req1)"
    by (auto simp: layer_try_def split: option.splits)
  show ?thesis
  proof (cases "r = 0")
    case False
    with assms t pa show ?thesis
      by (auto simp: layer_try_def keeps_best_def split: if_splits)
  next
    case True
    let ?st1 = "st\<lparr> res_req := req1,
                      ss_cand := (ss_cand st)
                        (layer := layer_candidate_plane_add (ss_cand st layer) plane) \<rparr>"
    from assms t pa True obtain r2 st2 where
      d: "device_test_commit k ?st1 = Some (r2, st2)"
      by (auto simp: layer_try_def Let_def split: option.splits if_splits)
    from device_test_commit_keeps [OF d] have k2: "keeps_best ?st1 st2" by simp
    from assms t pa True d have "st1 = st2 \<and> ret = r2 \<and> r2 \<noteq> 0"
      by (auto simp: layer_try_def Let_def split: if_splits)
    with k2 show ?thesis by (auto simp: keeps_best_def)
  qed
qed

lemma layer_try_Descend:
  assumes "layer_try k s plane step cur layer st = Descend st1"
  shows "keeps_best st st1 \<and> (\<exists>ys. res_req st1 = res_req st @ ys) \<and>
         layer_plane_compatible_get s step layer plane \<and>
         layer_plane (lays s layer) = None \<and> layer_visible_get (lays s layer)"
proof -
  from assms have t: "\<not> (layer_plane (lays s layer) \<noteq> None \<or> \<not> layer_visible_get (lays s layer) \<or>
               \<not> layer_plane_compatible_get s step layer plane)"
    by (auto simp: layer_try_def split: if_splits)
  with assms obtain r req1 where
    pa: "plane_apply k s plane (Some layer) (res_req st) = Some (r, req1)"
    by (auto simp: layer_try_def split: option.splits)
  from assms t pa have z: "r = 0"
    by (auto simp: layer_try_def split: if_splits)
  with plane_apply_req [OF pa] obtain ys where ys: "req1 = res_req st @ ys" by auto
  let ?st1 = "st\<lparr> res_req := req1,
                    ss_cand := (ss_cand st)
                      (layer := layer_candidate_plane_add (ss_cand st layer) plane) \<rparr>"
  from assms t pa z obtain r2 st2 where
    d: "device_test_commit k ?st1 = Some (r2, st2)"
    by (auto simp: layer_try_def Let_def split: option.splits if_splits)
  from device_test_commit_keeps [OF d]
  have k2: "keeps_best ?st1 st2" and r2: "res_req st2 = req1" by simp_all
  from assms t pa z d have "st1 = st2"
    by (auto simp: layer_try_def Let_def split: if_splits)
  with k2 r2 ys t show ?thesis by (auto simp: keeps_best_def)
qed

section \<open>Upper-bound pruning\<close>

text \<open>
  What a call of \<open>output_layers_choose\<close> (with or without pruning) that returns leaves
  behind: the best score never goes down, a call that returns 0 leaves the request as
  it found it, and when no assignment below the step can score above \<open>best_score\<close>
  (\<open>bound\<close> is the step's score plus the number of planes still to allocate), the
  best allocation is untouched.
\<close>

definition search_post :: "int \<Rightarrow> search_state \<Rightarrow> int \<Rightarrow> search_state \<Rightarrow> bool" where
  "search_post bound st ret st1 =
     (planes_len st1 = planes_len st \<and> res_flags st1 = res_flags st \<and>
      has_comp_layer st1 = has_comp_layer st \<and>
      non_comp_layers_len st1 = non_comp_layers_len st \<and>
      best_score st \<le> best_score st1 \<and>
      (ret = 0 \<longrightarrow> res_req st1 = res_req st) \<and>
      (bound \<le> best_score st \<longrightarrow> best_score st1 = best_score st \<and> best st1 = best st))"

lemma search_post_keeps:
  "keeps_best st st1 \<Longrightarrow> res_req st1 = res_req st \<Longrightarrow> search_post b st1 ret st2 \<Longrightarrow>
   search_post b st ret st2"
  by (auto simp: keeps_best_def search_post_def)

lemma search_post_weaken: "search_post b st ret st1 \<Longrightarrow> b \<le> c \<Longrightarrow> search_post c st ret st1"
  by (auto simp: search_post_def)

lemma step_next_score_bounds:
  "score step \<le> score (plane_step_init_next s step plane a) \<and>
   score (plane_step_init_next s step plane a) \<le> score step + 1 \<and>
   pindex (plane_step_init_next s step plane a) = pindex step + 1"
  by (simp add: plane_step_init_next_def Let_def)

lemma step_next_score_None: "score (plane_step_init_next s step plane None) = score step"
  by (simp add: plane_step_init_next_def Let_def)

lemma loop_post:
  assumes IH: "\<And>step st ret st1.
      output_layers_choose prune k s output rest step st = Some (ret, st1) \<Longrightarrow>
      search_post (score step + int (length rest)) st ret st1"
  shows "cur = int (length (res_req st)) \<Longrightarrow>
     output_layers_loop prune k s output plane rest step cur layers st = Some (ret, st1) \<Longrightarrow>
     search_post (score step + 1 + int (length rest)) st ret st1"
proof (induction layers arbitrary: st)
  case Nil
  let ?n = "plane_step_init_next s step plane None"
  from Nil.prems(2) obtain r2 st2 where
    c: "output_layers_choose prune k s output rest ?n st = Some (r2, st2)"
    by (auto split: option.splits)
  from IH [OF c] have p: "search_post (score step + int (length rest)) st r2 st2"
    by (simp add: step_next_score_None)
  show ?case
  proof (cases "r2 = 0")
    case False
    with Nil.prems(2) c have "ret = r2" "st1 = st2" by simp_all
    with p show ?thesis by (auto simp: search_post_def)
  next
    case True
    with Nil.prems(2) c have "ret = 0"
      "st1 = st2\<lparr> res_req := drmModeAtomicSetCursor (res_req st2) cur \<rparr>" by simp_all
    with p True Nil.prems(1) show ?thesis
      by (auto simp: search_post_def drmModeAtomicSetCursor_def)
  qed
next
  case (Cons layer layers)
  let ?b = "score step + 1 + int (length rest)"
  show ?case
  proof (cases "layer_try k s plane step cur layer st")
    case Stuck
    with Cons.prems(2) show ?thesis by simp
  next
    case (Next st2)
    from layer_try_Next [OF Next Cons.prems(1)]
    have kb: "keeps_best st st2" and rq: "res_req st2 = res_req st" by simp_all
    from Cons.prems(2) Next
    have "output_layers_loop prune k s output plane rest step cur layers st2 = Some (ret, st1)"
      by simp
    from Cons.IH [OF _ this] Cons.prems(1) rq have "search_post ?b st2 ret st1" by simp
    from search_post_keeps [OF kb rq this] show ?thesis .
  next
    case (Abort r st2)
    from layer_try_Abort [OF Abort] have kb: "keeps_best st st2" and nz: "r \<noteq> 0" by simp_all
    from Cons.prems(2) Abort have "ret = r" "st1 = st2" by simp_all
    with kb nz show ?thesis by (auto simp: search_post_def keeps_best_def)
  next
    case (Descend st2)
    let ?n = "plane_step_init_next s step plane (Some layer)"
    from layer_try_Descend [OF Descend] obtain ys where
      kb: "keeps_best st st2" and rq: "res_req st2 = res_req st @ ys" by auto
    from Cons.prems(2) Descend obtain r3 st3 where
      c: "output_layers_choose prune k s output rest ?n st2 = Some (r3, st3)"
      by (auto split: option.splits)
    from IH [OF c] have "search_post (score ?n + int (length rest)) st2 r3 st3" .
    then have p3: "search_post ?b st2 r3 st3"
      by (rule search_post_weaken) (use step_next_score_bounds [of step s plane "Some layer"] in simp)
    show ?thesis
    proof (cases "r3 = 0")
      case False
      with Cons.prems(2) Descend c have "ret = r3" "st1 = st3" by simp_all
      with p3 kb False show ?thesis by (auto simp: search_post_def keeps_best_def)
    next
      case True
      let ?st4 = "st3\<lparr> res_req := drmModeAtomicSetCursor (res_req st3) cur \<rparr>"
      from Cons.prems(2) Descend c True
      have l: "output_layers_loop prune k s output plane rest step cur layers ?st4 = Some (ret, st1)"
        by simp
      from p3 True have r3: "res_req st3 = res_req st2" by (simp add: search_post_def)
      with rq Cons.prems(1) have r4: "res_req ?st4 = res_req st"
        by (simp add: drmModeAtomicSetCursor_def)
      from Cons.IH [OF _ l] Cons.prems(1) r4 have p4: "search_post ?b ?st4 ret st1" by simp
      from p3 p4 kb r4 show ?thesis
        by (auto simp: search_post_def keeps_best_def)
    qed
  qed
qed

lemma choose_post:
  "output_layers_choose prune k s output ps step st = Some (ret, st1) \<Longrightarrow>
   search_post (score step + int (length ps)) st ret st1"
proof (induction ps arbitrary: step st ret st1)
  case Nil
  then show ?case by (auto simp: search_post_def split: if_splits)
next
  case (Cons plane rest)
  show ?case
  proof (cases "prune \<and> best_score st \<ge> score step + int (planes_len st - pindex step)")
    case True
    with Cons.prems show ?thesis by (auto simp: search_post_def)
  next
    case False
    let ?cur = "drmModeAtomicGetCursor (res_req st)"
    from Cons.prems False have
      "\<exists>layers. output_layers_loop prune k s output plane rest step ?cur layers st = Some (ret, st1)"
      by (auto simp: Let_def simp del: output_layers_loop.simps split: if_splits)
    then obtain layers where
      l: "output_layers_loop prune k s output plane rest step ?cur layers st = Some (ret, st1)" ..
    have "?cur = int (length (res_req st))" by (simp add: drmModeAtomicGetCursor_def)
    from loop_post [OF Cons.IH this l] show ?thesis by (simp add: add.commute add.left_commute)
  qed
qed

text \<open>
  The search with pruning follows the search without it: from states with the same
  result (the counter of test commits and the candidate memo may differ), whenever the
  search without pruning returns 0, the search with pruning returns 0 with the same
  result.
\<close>

definition same_result :: "search_state \<Rightarrow> search_state \<Rightarrow> bool" where
  "same_result a b =
     (res_req a = res_req b \<and> res_flags a = res_flags b \<and> planes_len a = planes_len b \<and>
      best a = best b \<and> best_score a = best_score b \<and>
      has_comp_layer a = has_comp_layer b \<and> non_comp_layers_len a = non_comp_layers_len b)"

fun attempt_rel :: "attempt \<Rightarrow> attempt \<Rightarrow> bool" where
  "attempt_rel Stuck Stuck = True"
| "attempt_rel (Next a) (Next b) = same_result a b"
| "attempt_rel (Abort r a) (Abort r1 b) = (r = r1 \<and> same_result a b)"
| "attempt_rel (Descend a) (Descend b) = same_result a b"
| "attempt_rel _ _ = False"

lemma device_test_commit_sim:
  "same_result a b \<Longrightarrow>
   (case (device_test_commit k a, device_test_commit k b) of
      (None, None) \<Rightarrow> True
    | (Some (r, a1), Some (r1, b1)) \<Rightarrow> r = r1 \<and> same_result a1 b1
    | _ \<Rightarrow> False)"
  by (auto simp: device_test_commit_def same_result_def Let_def split: option.splits)

lemma layer_try_sim:
  assumes "same_result a b"
  shows "attempt_rel (layer_try k s plane step cur layer a) (layer_try k s plane step cur layer b)"
proof -
  from assms have rq: "res_req b = res_req a" by (simp add: same_result_def)
  show ?thesis
  proof (cases "layer_plane (lays s layer) \<noteq> None \<or> \<not> layer_visible_get (lays s layer) \<or>
               \<not> layer_plane_compatible_get s step layer plane")
    case True
    with assms show ?thesis by (auto simp: layer_try_def)
  next
    case t: False
    show ?thesis
    proof (cases "plane_apply k s plane (Some layer) (res_req a)")
      case None
      with t rq show ?thesis by (simp add: layer_try_def)
    next
      case (Some p)
      obtain ret req1 where p: "p = (ret, req1)" by (cases p)
      let ?a1 = "a\<lparr> res_req := req1,
                      ss_cand := (ss_cand a)
                        (layer := layer_candidate_plane_add (ss_cand a layer) plane) \<rparr>"
      let ?b1 = "b\<lparr> res_req := req1,
                      ss_cand := (ss_cand b)
                        (layer := layer_candidate_plane_add (ss_cand b layer) plane) \<rparr>"
      from assms have s1: "same_result ?a1 ?b1" "same_result (a\<lparr> res_req := req1 \<rparr>) (b\<lparr> res_req := req1 \<rparr>)"
        "same_result (?a1\<lparr> res_req := drmModeAtomicSetCursor (res_req ?a1) cur \<rparr>)
                     (?b1\<lparr> res_req := drmModeAtomicSetCursor (res_req ?b1) cur \<rparr>)"
        by (simp_all add: same_result_def)
      show ?thesis
      proof (cases "ret = 0 \<and> \<not> (force_comp (lays s layer) \<or> \<not> plane_check_layer_fb plane (lays s layer))")
        case False
        with t rq Some p s1 show ?thesis by (auto simp: layer_try_def Let_def)
      next
        case True
        from device_test_commit_sim [OF s1(1), of k] have
          "attempt_rel
             (case device_test_commit k ?a1 of
                None \<Rightarrow> Stuck
              | Some (ret, st2) \<Rightarrow>
                  if ret = 0 then Descend st2
                  else if ret \<noteq> - EINVAL \<and> ret \<noteq> - ERANGE \<and> ret \<noteq> - ENOSPC
                    then Abort ret st2
                  else Next (st2\<lparr> res_req := drmModeAtomicSetCursor (res_req st2) cur \<rparr>))
             (case device_test_commit k ?b1 of
                None \<Rightarrow> Stuck
              | Some (ret, st2) \<Rightarrow>
                  if ret = 0 then Descend st2
                  else if ret \<noteq> - EINVAL \<and> ret \<noteq> - ERANGE \<and> ret \<noteq> - ENOSPC
                    then Abort ret st2
                  else Next (st2\<lparr> res_req := drmModeAtomicSetCursor (res_req st2) cur \<rparr>))"
          by (auto simp: same_result_def split: option.splits)
        with t rq Some p True show ?thesis by (simp add: layer_try_def Let_def)
      qed
    qed
  qed
qed

lemma same_result_keeps:
  "same_result a b \<Longrightarrow> keeps_best a a1 \<Longrightarrow> res_req a1 = res_req a \<Longrightarrow> same_result a1 b"
  by (auto simp: same_result_def keeps_best_def)

lemma sim_loop:
  assumes IH: "\<And>step st_u st_p st_u1.
      same_result st_u st_p \<Longrightarrow> planes_len st_u = pindex step + length rest \<Longrightarrow>
      output_layers_choose False k s output rest step st_u = Some (0, st_u1) \<Longrightarrow>
      \<exists>st_p1. output_layers_choose True k s output rest step st_p = Some (0, st_p1) \<and>
              same_result st_u1 st_p1"
  shows "same_result st_u st_p \<Longrightarrow> planes_len st_u = pindex step + 1 + length rest \<Longrightarrow>
     output_layers_loop False k s output plane rest step cur layers st_u = Some (0, st_u1) \<Longrightarrow>
     \<exists>st_p1. output_layers_loop True k s output plane rest step cur layers st_p = Some (0, st_p1) \<and>
             same_result st_u1 st_p1"
proof (induction layers arbitrary: st_u st_p)
  case Nil
  let ?n = "plane_step_init_next s step plane None"
  from Nil.prems(3) obtain r2 st2 where
    c: "output_layers_choose False k s output rest ?n st_u = Some (r2, st2)"
    by (auto split: option.splits)
  with Nil.prems(3) have z: "r2 = 0"
    and u1: "st_u1 = st2\<lparr> res_req := drmModeAtomicSetCursor (res_req st2) cur \<rparr>"
    by (auto split: if_splits)
  have "planes_len st_u = pindex ?n + length rest"
    using Nil.prems(2) step_next_score_bounds [of step s plane None] by simp
  from IH [OF Nil.prems(1) this c [unfolded z]] obtain st_p2 where
    p: "output_layers_choose True k s output rest ?n st_p = Some (0, st_p2)"
    and sr: "same_result st2 st_p2" by auto
  from p sr u1 show ?case by (auto simp: same_result_def)
next
  case (Cons layer layers)
  from layer_try_sim [OF Cons.prems(1), of k s plane step cur layer]
  have rel: "attempt_rel (layer_try k s plane step cur layer st_u)
                         (layer_try k s plane step cur layer st_p)" .
  show ?case
  proof (cases "layer_try k s plane step cur layer st_u")
    case Stuck
    with Cons.prems(3) show ?thesis by simp
  next
    case (Abort r st2)
    from layer_try_Abort [OF Abort] Cons.prems(3) Abort show ?thesis by simp
  next
    case (Next st2)
    with rel obtain st_p2 where np: "layer_try k s plane step cur layer st_p = Next st_p2"
      and sr: "same_result st2 st_p2"
      by (cases "layer_try k s plane step cur layer st_p") auto
    from Cons.prems(3) Next
    have l: "output_layers_loop False k s output plane rest step cur layers st2 = Some (0, st_u1)"
      by simp
    from Next have "planes_len st2 = planes_len st_u"
      by (auto simp: layer_try_def Let_def device_test_commit_def split: if_splits option.splits)
    with Cons.prems(2) have pl: "planes_len st2 = pindex step + 1 + length rest" by simp
    from Cons.IH [OF sr pl l] np show ?thesis by simp
  next
    case (Descend st2)
    let ?n = "plane_step_init_next s step plane (Some layer)"
    from rel Descend obtain st_p2 where np: "layer_try k s plane step cur layer st_p = Descend st_p2"
      and sr: "same_result st2 st_p2"
      by (cases "layer_try k s plane step cur layer st_p") auto
    from layer_try_Descend [OF Descend] have kb: "keeps_best st_u st2" by simp
    from Cons.prems(3) Descend obtain r3 st3 where
      c: "output_layers_choose False k s output rest ?n st2 = Some (r3, st3)"
      by (auto split: option.splits)
    with Cons.prems(3) Descend have z: "r3 = 0" by (auto split: if_splits)
    let ?st4 = "st3\<lparr> res_req := drmModeAtomicSetCursor (res_req st3) cur \<rparr>"
    from Cons.prems(3) Descend c z
    have l: "output_layers_loop False k s output plane rest step cur layers ?st4 = Some (0, st_u1)"
      by simp
    have pn: "planes_len st2 = pindex ?n + length rest"
      using Cons.prems(2) kb step_next_score_bounds [of step s plane "Some layer"]
      by (simp add: keeps_best_def)
    from IH [OF sr pn c [unfolded z]] obtain st_p3 where
      p: "output_layers_choose True k s output rest ?n st_p2 = Some (0, st_p3)"
      and sr3: "same_result st3 st_p3" by auto
    let ?st_p4 = "st_p3\<lparr> res_req := drmModeAtomicSetCursor (res_req st_p3) cur \<rparr>"
    from sr3 have sr4: "same_result ?st4 ?st_p4" by (simp add: same_result_def)
    from choose_post [OF c] kb Cons.prems(2)
    have pl: "planes_len ?st4 = pindex step + 1 + length rest"
      by (simp add: search_post_def keeps_best_def)
    from Cons.IH [OF sr4 pl l] np p show ?thesis by simp
  qed
qed

definition candidate_layers :: "liftoff \<Rightarrow> nat \<Rightarrow> liftoff_rpi_plane \<Rightarrow> nat list" where
  "candidate_layers s output plane =
     (if plane_layer plane \<noteq> None then []
      else if possible_crtcs plane AND push_bit (crtc_index (outs s output)) 1 = 0 then []
      else out_layers (outs s output))"

lemma choose_Cons:
  "output_layers_choose prune k s output (plane # rest) step st =
     (if prune \<and> best_score st \<ge> score step + int (planes_len st - pindex step)
      then Some (0, st)
      else output_layers_loop prune k s output plane rest step
             (drmModeAtomicGetCursor (res_req st)) (candidate_layers s output plane) st)"
  by (simp add: candidate_layers_def Let_def del: output_layers_loop.simps)

lemma sim_choose:
  "same_result st_u st_p \<Longrightarrow> planes_len st_u = pindex step + length ps \<Longrightarrow>
   output_layers_choose False k s output ps step st_u = Some (0, st_u1) \<Longrightarrow>
   \<exists>st_p1. output_layers_choose True k s output ps step st_p = Some (0, st_p1) \<and>
           same_result st_u1 st_p1"
proof (induction ps arbitrary: step st_u st_p st_u1)
  case Nil
  then show ?case
    by (auto simp: same_result_def alloc_valid_get_def split: if_splits)
next
  case (Cons plane rest)
  from Cons.prems(1) have eq: "best_score st_p = best_score st_u" "planes_len st_p = planes_len st_u"
    "res_req st_p = res_req st_u" by (simp_all add: same_result_def)
  show ?case
  proof (cases "best_score st_u \<ge> score step + int (planes_len st_u - pindex step)")
    case True
    with Cons.prems(2) have "score step + int (length (plane # rest)) \<le> best_score st_u" by simp
    with choose_post [OF Cons.prems(3)] have "keeps_best st_u st_u1" "res_req st_u1 = res_req st_u"
      by (simp_all add: search_post_def keeps_best_def)
    from same_result_keeps [OF Cons.prems(1) this] True eq show ?thesis
      unfolding choose_Cons by simp
  next
    case False
    let ?cur = "drmModeAtomicGetCursor (res_req st_u)"
    let ?layers = "candidate_layers s output plane"
    from Cons.prems(3) have
      l: "output_layers_loop False k s output plane rest step ?cur ?layers st_u = Some (0, st_u1)"
      unfolding choose_Cons by simp
    from Cons.prems(2) have pl: "planes_len st_u = pindex step + 1 + length rest" by simp
    have "\<exists>st_p1. output_layers_loop True k s output plane rest step ?cur ?layers st_p =
                   Some (0, st_p1) \<and> same_result st_u1 st_p1"
      by (rule sim_loop [OF _ Cons.prems(1) pl l]) (rule Cons.IH)
    then obtain st_p1 where
      "output_layers_loop True k s output plane rest step ?cur ?layers st_p = Some (0, st_p1)"
      "same_result st_u1 st_p1" by blast
    with False eq show ?thesis unfolding choose_Cons by simp
  qed
qed

text \<open>
  C5, as amended. Whenever the search without the pruning step runs to its end and
  returns 0, the search with the pruning step returns 0 as well, with the same best
  score, the same best allocation and the same request. (\<open>planes_len\<close> is the number
  of planes: the planes still to allocate are the ones from \<open>pindex\<close> on, as in every
  call that \<open>liftoff_rpi_output_apply\<close> starts.)
\<close>

theorem pruning_keeps_best:
  assumes "output_layers_choose False k s output ps step st = Some (0, st_u)"
    and "planes_len st = pindex step + length ps"
  shows "\<exists>st_p. output_layers_choose True k s output ps step st = Some (0, st_p) \<and>
               best_score st_p = best_score st_u \<and> best st_p = best st_u \<and>
               res_req st_p = res_req st_u"
proof -
  have "same_result st st" by (simp add: same_result_def)
  from sim_choose [OF this assms(2) assms(1)] show ?thesis
    by (auto simp: same_result_def)
qed

definition example_fb_plane :: "u32 \<Rightarrow> u32 \<Rightarrow> int \<Rightarrow> liftoff_rpi_plane" where
  "example_fb_plane ident type zpos =
     example_plane ident type zpos
       [\<lparr> prop_index = LIFTOFF_RPI_PROP_FB_ID, prop_id = 12,
          prop_dprop = Some (example_dprop 12 ''FB_ID''), prop_value = 0, prop_prev_value = 0 \<rparr>,
        \<lparr> prop_index = LIFTOFF_RPI_PROP_CRTC_ID, prop_id = 13,
          prop_dprop = Some (example_dprop 13 ''CRTC_ID''), prop_value = 0, prop_prev_value = 0 \<rparr>]"

text \<open>
  Three planes (32 PRIMARY, 33 and 31 overlays) and the layers 0, 1, 2 of output 0 with
  the framebuffers 1, 2, 3. The kernel refuses framebuffer 2 on plane 33, refuses it on
  plane 31 next to framebuffer 3 on plane 33, and otherwise answers a commit that puts
  framebuffer 2 on plane 31 with \<open>-EACCES\<close>.
\<close>

definition example_three :: liftoff where
  "example_three =
     \<lparr> dev = example_device
               [example_fb_plane 32 DRM_PLANE_TYPE_PRIMARY 0,
                example_fb_plane 33 DRM_PLANE_TYPE_OVERLAY 2,
                example_fb_plane 31 DRM_PLANE_TYPE_OVERLAY 1],
       outs = (\<lambda>_. example_output [0, 1, 2]),
       lays = (\<lambda>l. example_layer 0
                      [example_property LIFTOFF_RPI_PROP_FB_ID (word_of_nat (Suc l)) 0]),
       cand = (\<lambda>_. [0, 0, 0]) \<rparr>"

definition example_picky_drm :: drm where
  "example_picky_drm =
     example_drm\<lparr> drm_atomic_commit :=
       (\<lambda>req flags n.
          if (33, 12, 2) \<in> set req then - EINVAL
          else if (31, 12, 2) \<in> set req \<and> (33, 12, 3) \<in> set req then - EINVAL
          else if (31, 12, 2) \<in> set req then - EACCES
          else 0) \<rparr>"

lemmas example_three_defs =
  example_three_def example_picky_drm_def example_fb_plane_def example_plane_def
  example_dprop_def example_device_def example_output_def example_layer_def
  example_property_def example_drm_def zero_fb_info_def

text \<open>
  The claim as stated fails when the kernel answers a test commit with a hard error
  inside a subtree that pruning skips. With pruning the search ends with score 3; without
  it the search tries framebuffer 2 on plane 31 below the allocation (layer 0 on plane
  32, nothing on plane 33), which cannot beat the score 2 found before, and is aborted
  by \<open>-EACCES\<close> with best score 2.
\<close>

theorem pruning_counterexample:
  "map_option (\<lambda>(ret, st). (ret, best_score st, best st))
     (output_layers_choose True example_picky_drm example_three 0 (planes (dev example_three))
        (initial_step 3) (initial_result example_three 0 [] 0)) =
     Some (0, 3, [Some 1, Some 0, Some 2]) \<and>
   map_option (\<lambda>(ret, st). (ret, best_score st, best st))
     (output_layers_choose False example_picky_drm example_three 0 (planes (dev example_three))
        (initial_step 3) (initial_result example_three 0 [] 0)) =
     Some (- EACCES, 2, [Some 0, Some 2, None])"
  by code_simp

lemma example_three_unpruned:
  "map_option (\<lambda>(ret, st). (ret, best_score st))
     (output_layers_choose False example_drm example_three 0 (planes (dev example_three))
        (initial_step 3) (initial_result example_three 0 [] 0)) = Some (0, 3)"
  by code_simp

theorem pruning_keeps_best_witness:
  "\<exists>st_u st_p.
     output_layers_choose False example_drm example_three 0 (planes (dev example_three))
        (initial_step 3) (initial_result example_three 0 [] 0) = Some (0, st_u) \<and>
     planes_len (initial_result example_three 0 [] 0) =
        pindex (initial_step 3) + length (planes (dev example_three)) \<and>
     output_layers_choose True example_drm example_three 0 (planes (dev example_three))
        (initial_step 3) (initial_result example_three 0 [] 0) = Some (0, st_p) \<and>
     best_score st_p = 3 \<and> best_score st_u = 3"
proof -
  from example_three_unpruned obtain st_u where
    u: "output_layers_choose False example_drm example_three 0 (planes (dev example_three))
          (initial_step 3) (initial_result example_three 0 [] 0) = Some (0, st_u)"
    and b: "best_score st_u = 3"
    by auto
  have l: "planes_len (initial_result example_three 0 [] 0) =
        pindex (initial_step 3) + length (planes (dev example_three))"
    by (simp add: initial_result_def initial_step_def example_three_def example_device_def)
  from pruning_keeps_best [OF u l] u l b show ?thesis by auto
qed

section \<open>The composition layer and the PRIMARY plane\<close>

text \<open>
  \<open>comp_primary s all a\<close>: wherever the array \<open>a\<close> puts a composition layer, the plane
  at that position of the plane list \<open>all\<close> is PRIMARY. The search keeps this for
  \<open>alloc\<close> and \<open>best\<close>, because a layer enters \<open>alloc\<close> only past
  \<open>layer_plane_compatible_get\<close>.
\<close>

definition comp_primary :: "liftoff \<Rightarrow> liftoff_rpi_plane list \<Rightarrow> nat option list \<Rightarrow> bool" where
  "comp_primary s all a =
     (\<forall>i l. i < length all \<and> i < length a \<and> a ! i = Some l \<and> is_comp_layer s l \<longrightarrow>
            plane_type (all ! i) = DRM_PLANE_TYPE_PRIMARY)"

lemma compatible_comp_primary:
  "layer_plane_compatible_get s step layer plane \<Longrightarrow> is_comp_layer s layer \<Longrightarrow>
   plane_type plane = DRM_PLANE_TYPE_PRIMARY"
  by (auto simp: layer_plane_compatible_get_def Let_def split: if_splits)

lemma drop_eq_ConsD:
  assumes "drop n xs = y # ys"
  shows "n < length xs \<and> xs ! n = y \<and> drop (Suc n) xs = ys"
proof -
  from assms have n: "n < length xs" by (cases "n < length xs") auto
  from n have "drop n xs = xs ! n # drop (Suc n) xs" by (rule Cons_nth_drop_Suc [symmetric])
  with assms n show ?thesis by simp
qed

lemma step_next_alloc:
  "alloc (plane_step_init_next s step plane a) = (alloc step)[pindex step := a]"
  by (simp add: plane_step_init_next_def Let_def)

lemma comp_primary_update:
  assumes "comp_primary s all a" "drop n all = plane # rest"
    and "\<And>l. x = Some l \<Longrightarrow> is_comp_layer s l \<Longrightarrow> plane_type plane = DRM_PLANE_TYPE_PRIMARY"
  shows "comp_primary s all (a[n := x])"
proof -
  from drop_eq_ConsD [OF assms(2)] have n: "n < length all" "all ! n = plane" by simp_all
  show ?thesis
    unfolding comp_primary_def
  proof (intro allI impI)
    fix i l
    assume h: "i < length all \<and> i < length (a[n := x]) \<and> a[n := x] ! i = Some l \<and> is_comp_layer s l"
    show "plane_type (all ! i) = DRM_PLANE_TYPE_PRIMARY"
    proof (cases "i = n")
      case True
      with h n assms(3) show ?thesis by auto
    next
      case False
      with h assms(1) show ?thesis by (auto simp: comp_primary_def)
    qed
  qed
qed

definition search_inv :: "liftoff \<Rightarrow> liftoff_rpi_plane list \<Rightarrow> search_state \<Rightarrow> bool" where
  "search_inv s all st =
     (planes_len st = length all \<and> length (best st) = length all \<and> comp_primary s all (best st))"

lemma search_inv_keeps: "keeps_best st st1 \<Longrightarrow> search_inv s all st \<Longrightarrow> search_inv s all st1"
  by (simp add: keeps_best_def search_inv_def)

lemma search_inv_req: "search_inv s all (st\<lparr> res_req := r \<rparr>) = search_inv s all st"
  by (simp add: search_inv_def)

lemma loop_comp_primary:
  assumes IH: "\<And>step st ret st1.
      output_layers_choose prune k s output rest step st = Some (ret, st1) \<Longrightarrow>
      drop (pindex step) all = rest \<Longrightarrow> length (alloc step) = length all \<Longrightarrow>
      comp_primary s all (alloc step) \<Longrightarrow> search_inv s all st \<Longrightarrow> search_inv s all st1"
    and pos: "drop (pindex step) all = plane # rest"
    and len: "length (alloc step) = length all"
    and cp: "comp_primary s all (alloc step)"
  shows "output_layers_loop prune k s output plane rest step cur layers st = Some (ret, st1) \<Longrightarrow>
     search_inv s all st \<Longrightarrow> search_inv s all st1"
proof (induction layers arbitrary: st)
  case Nil
  let ?n = "plane_step_init_next s step plane None"
  from Nil.prems(1) obtain r2 st2 where
    c: "output_layers_choose prune k s output rest ?n st = Some (r2, st2)"
    by (auto split: option.splits)
  from pos have d: "drop (pindex ?n) all = rest"
    using step_next_score_bounds [of step s plane None] drop_eq_ConsD [OF pos] by simp
  have l: "length (alloc ?n) = length all" by (simp add: step_next_alloc len)
  have p: "comp_primary s all (alloc ?n)"
    unfolding step_next_alloc by (rule comp_primary_update [OF cp pos]) simp
  from IH [OF c d l p Nil.prems(2)] have "search_inv s all st2" .
  with Nil.prems(1) c show ?case by (auto simp: search_inv_req split: if_splits)
next
  case (Cons layer layers)
  show ?case
  proof (cases "layer_try k s plane step cur layer st")
    case Stuck
    with Cons.prems(1) show ?thesis by simp
  next
    case (Next st2)
    from Next have "keeps_best st st2"
      by (auto simp: layer_try_def keeps_best_def Let_def device_test_commit_def
          split: if_splits option.splits)
    from search_inv_keeps [OF this Cons.prems(2)] Cons.prems(1) Next Cons.IH show ?thesis by simp
  next
    case (Abort r st2)
    from layer_try_Abort [OF Abort] search_inv_keeps Cons.prems Abort show ?thesis by auto
  next
    case (Descend st2)
    let ?n = "plane_step_init_next s step plane (Some layer)"
    from layer_try_Descend [OF Descend] have kb: "keeps_best st st2"
      and compat: "layer_plane_compatible_get s step layer plane" by simp_all
    from Cons.prems(1) Descend obtain r3 st3 where
      c: "output_layers_choose prune k s output rest ?n st2 = Some (r3, st3)"
      by (auto split: option.splits)
    from pos have d: "drop (pindex ?n) all = rest"
      using step_next_score_bounds [of step s plane "Some layer"] drop_eq_ConsD [OF pos] by simp
    have l: "length (alloc ?n) = length all" by (simp add: step_next_alloc len)
    have p: "comp_primary s all (alloc ?n)"
      unfolding step_next_alloc
      by (rule comp_primary_update [OF cp pos]) (use compat compatible_comp_primary in auto)
    from IH [OF c d l p search_inv_keeps [OF kb Cons.prems(2)]] have i3: "search_inv s all st3" .
    show ?thesis
    proof (cases "r3 = 0")
      case False
      with Cons.prems(1) Descend c i3 show ?thesis by simp
    next
      case True
      with Cons.prems(1) Descend c have
        "output_layers_loop prune k s output plane rest step cur layers
           (st3\<lparr> res_req := drmModeAtomicSetCursor (res_req st3) cur \<rparr>) = Some (ret, st1)"
        by simp
      from Cons.IH [OF this] i3 show ?thesis by (simp add: search_inv_req)
    qed
  qed
qed

lemma choose_comp_primary:
  "output_layers_choose prune k s output ps step st = Some (ret, st1) \<Longrightarrow>
   drop (pindex step) all = ps \<Longrightarrow> length (alloc step) = length all \<Longrightarrow>
   comp_primary s all (alloc step) \<Longrightarrow> search_inv s all st \<Longrightarrow> search_inv s all st1"
proof (induction ps arbitrary: step st ret st1)
  case Nil
  then show ?case by (auto simp: search_inv_def split: if_splits)
next
  case (Cons plane rest)
  show ?case
  proof (cases "prune \<and> best_score st \<ge> score step + int (planes_len st - pindex step)")
    case True
    with Cons.prems show ?thesis unfolding choose_Cons by simp
  next
    case False
    with Cons.prems(1) have
      l: "output_layers_loop prune k s output plane rest step
            (drmModeAtomicGetCursor (res_req st)) (candidate_layers s output plane) st = Some (ret, st1)"
      unfolding choose_Cons by simp
    show ?thesis
      by (rule loop_comp_primary [OF _ Cons.prems(2) Cons.prems(3) Cons.prems(4) l Cons.prems(5)])
         (rule Cons.IH)
  qed
qed

text \<open>What the bookkeeping passes over the layers leave alone.\<close>

definition same_bindings :: "liftoff \<Rightarrow> liftoff \<Rightarrow> bool" where
  "same_bindings s s1 =
     (planes (dev s1) = planes (dev s) \<and>
      (\<forall>output. comp_layer (outs s1 output) = comp_layer (outs s output) \<and>
                out_layers (outs s1 output) = out_layers (outs s output) \<and>
                layers_changed (outs s1 output) = layers_changed (outs s output)) \<and>
      (\<forall>l. layer_plane (lays s1 l) = layer_plane (lays s l) \<and>
           layer_output (lays s1 l) = layer_output (lays s l)))"

lemma same_bindings_refl: "same_bindings s s"
  by (simp add: same_bindings_def)

lemma same_bindings_trans: "same_bindings a b \<Longrightarrow> same_bindings b c \<Longrightarrow> same_bindings a c"
  by (simp add: same_bindings_def)

lemma fold_lays_same_bindings:
  assumes "\<And>x. layer_plane (f x) = layer_plane x \<and> layer_output (f x) = layer_output x"
  shows "same_bindings s
           (fold (\<lambda>layer s1. s1\<lparr> lays := (lays s1)(layer := f (lays s1 layer)) \<rparr>) ls s)"
proof (induction ls arbitrary: s)
  case Nil
  show ?case by (simp add: same_bindings_refl)
next
  case (Cons l ls)
  have "same_bindings s (s\<lparr> lays := (lays s)(l := f (lays s l)) \<rparr>)"
    using assms by (simp add: same_bindings_def)
  from same_bindings_trans [OF this Cons.IH] show ?case
    unfolding fold_simps o_apply .
qed

lemma layer_priority_update_binding:
  "layer_plane (layer_priority_update x e) = layer_plane x \<and>
   layer_output (layer_priority_update x e) = layer_output x"
  by (simp add: layer_priority_update_def Let_def split: option.splits)

lemma layer_cache_fb_info_binding:
  "layer_plane (snd (layer_cache_fb_info k x)) = layer_plane x \<and>
   layer_output (snd (layer_cache_fb_info k x)) = layer_output x"
  by (simp add: layer_cache_fb_info_def split: option.splits sum.splits)

lemma layer_clean_binding:
  "layer_plane (layer_clean x) = layer_plane x \<and> layer_output (layer_clean x) = layer_output x"
  by (simp add: layer_clean_def)

lemma layers_priority_update_bindings: "same_bindings s (layers_priority_update s)"
proof -
  have inner: "same_bindings s2
      (fold (\<lambda>layer s3. s3\<lparr> lays := (lays s3)(layer := layer_priority_update (lays s3 layer) e) \<rparr>)
            ls s2)" for s2 e ls
    by (rule fold_lays_same_bindings) (rule layer_priority_update_binding)
  have outer: "same_bindings s1
      (fold (\<lambda>output s2.
               fold (\<lambda>layer s3. s3\<lparr> lays := (lays s3)
                         (layer := layer_priority_update (lays s3 layer) e) \<rparr>)
                    (out_layers (outs s2 output)) s2) os s1)" for s1 e os
  proof (induction os arbitrary: s1)
    case Nil
    show ?case by (simp add: same_bindings_refl)
  next
    case (Cons out os)
    from same_bindings_trans [OF inner Cons.IH] show ?case
      unfolding fold_simps o_apply .
  qed
  have "same_bindings s (s\<lparr> dev := (dev s)\<lparr> page_flip_counter := c \<rparr> \<rparr>)" for c
    by (simp add: same_bindings_def)
  from same_bindings_trans [OF this outer] show ?thesis
    by (simp add: layers_priority_update_def Let_def)
qed

lemma layers_fb_info_update_bindings: "same_bindings s (layers_fb_info_update k s output)"
  unfolding layers_fb_info_update_def
  by (rule fold_lays_same_bindings [where f = "\<lambda>x. snd (layer_cache_fb_info k (x\<lparr> fb_info := zero_fb_info \<rparr>))"])
     (simp add: layer_cache_fb_info_binding)

lemma layers_mark_clean_bindings:
  "planes (dev (layers_mark_clean s output)) = planes (dev s) \<and>
   (\<forall>o1. comp_layer (outs (layers_mark_clean s output) o1) = comp_layer (outs s o1)) \<and>
   (\<forall>l. layer_plane (lays (layers_mark_clean s output) l) = layer_plane (lays s l) \<and>
        layer_output (lays (layers_mark_clean s output) l) = layer_output (lays s l))"
proof -
  let ?s1 = "s\<lparr> outs := (outs s)(output := (outs s output)\<lparr> layers_changed := False \<rparr>) \<rparr>"
  have "same_bindings ?s1
          (fold (\<lambda>layer s2. s2\<lparr> lays := (lays s2)(layer := layer_clean (lays s2 layer)) \<rparr>)
                (out_layers (outs ?s1 output)) ?s1)"
    by (rule fold_lays_same_bindings) (rule layer_clean_binding)
  then show ?thesis
    by (simp add: layers_mark_clean_def Let_def same_bindings_def)
qed

text \<open>The loops that break and make the bindings.\<close>

lemma unbind_planes_spec:
  "unbind_planes output ps ls = (ps1, ls1) \<Longrightarrow>
   list_all2 (\<lambda>p p1. plane_id p1 = plane_id p \<and> plane_type p1 = plane_type p \<and>
                     (\<forall>l. plane_layer p1 = Some l \<longrightarrow> layer_output (ls l) \<noteq> output)) ps ps1 \<and>
   (\<forall>l. layer_output (ls1 l) = layer_output (ls l)) \<and>
   (\<forall>l. layer_plane (ls1 l) = None \<or> layer_plane (ls1 l) = layer_plane (ls l)) \<and>
   (\<forall>l. (\<exists>p \<in> set ps. plane_layer p = Some l) \<and> layer_output (ls l) = output \<longrightarrow>
        layer_plane (ls1 l) = None)"
proof (induction ps arbitrary: ls ps1 ls1)
  case Nil
  then show ?case by simp
next
  case (Cons plane rest)
  show ?case
  proof (cases "\<exists>l. plane_layer plane = Some l \<and> layer_output (ls l) = output")
    case True
    then obtain l where l: "plane_layer plane = Some l" "layer_output (ls l) = output" by auto
    let ?ls = "ls(l := (ls l)\<lparr> layer_plane := None \<rparr>)"
    obtain rest1 ls2 where u: "unbind_planes output rest ?ls = (rest1, ls2)"
      by (cases "unbind_planes output rest ?ls")
    from Cons.prems l u have r: "ps1 = plane\<lparr> plane_layer := None \<rparr> # rest1" "ls1 = ls2" by simp_all
    note ih = Cons.IH [OF u]
    have out: "layer_output (?ls x) = layer_output (ls x)" for x by simp
    from ih have a: "list_all2 (\<lambda>p p1. plane_id p1 = plane_id p \<and> plane_type p1 = plane_type p \<and>
                     (\<forall>l. plane_layer p1 = Some l \<longrightarrow> layer_output (ls l) \<noteq> output)) rest rest1"
      unfolding out by simp
    from ih have b: "\<forall>x. layer_output (ls2 x) = layer_output (ls x)" unfolding out by simp
    from ih have c: "\<forall>x. layer_plane (ls2 x) = None \<or> layer_plane (ls2 x) = layer_plane (?ls x)"
      by simp
    then have c1: "\<forall>x. layer_plane (ls2 x) = None \<or> layer_plane (ls2 x) = layer_plane (ls x)"
      by (metis fun_upd_apply liftoff_rpi_layer.select_convs(2) liftoff_rpi_layer.surjective
          liftoff_rpi_layer.update_convs(2))
    from c have c2: "layer_plane (ls2 l) = None"
      by (metis fun_upd_same liftoff_rpi_layer.select_convs(2) liftoff_rpi_layer.surjective
          liftoff_rpi_layer.update_convs(2))
    from ih have d: "\<forall>x. (\<exists>p \<in> set rest. plane_layer p = Some x) \<and> layer_output (ls x) = output \<longrightarrow>
        layer_plane (ls2 x) = None" unfolding out by simp
    from a b c1 c2 d l r show ?thesis by auto
  next
    case False
    obtain rest1 ls2 where u: "unbind_planes output rest ls = (rest1, ls2)"
      by (cases "unbind_planes output rest ls")
    from Cons.prems False u have r: "ps1 = plane # rest1" "ls1 = ls2"
      by (auto split: option.splits if_splits)
    from Cons.IH [OF u] False r show ?thesis by auto
  qed
qed

lemma install_best_spec:
  "install_best ps bs ls = (ps2, ls2) \<Longrightarrow> length bs = length ps \<Longrightarrow>
   list_all2 (\<lambda>(p, b) p2. plane_id p2 = plane_id p \<and> plane_type p2 = plane_type p \<and>
                 plane_layer p2 = (case b of Some l \<Rightarrow> Some l | None \<Rightarrow> plane_layer p))
     (zip ps bs) ps2 \<and>
   (\<forall>l. layer_output (ls2 l) = layer_output (ls l)) \<and>
   (\<forall>l pid. layer_plane (ls2 l) = Some pid \<longrightarrow>
      layer_plane (ls l) = Some pid \<or>
      (\<exists>(p, b) \<in> set (zip ps bs). b = Some l \<and> plane_id p = pid))"
proof (induction ps arbitrary: bs ls ps2 ls2)
  case Nil
  then show ?case by simp
next
  case (Cons plane rest)
  from Cons.prems(2) obtain b bs1 where bs: "bs = b # bs1" "length bs1 = length rest"
    by (cases bs) auto
  show ?case
  proof (cases b)
    case None
    obtain rest1 ls3 where u: "install_best rest bs1 ls = (rest1, ls3)"
      by (cases "install_best rest bs1 ls")
    from Cons.prems(1) bs None u have r: "ps2 = plane # rest1" "ls2 = ls3" by simp_all
    from Cons.IH [OF u bs(2)] r bs None show ?thesis by auto
  next
    case (Some l)
    let ?ls = "ls(l := (ls l)\<lparr> layer_plane := Some (plane_id plane) \<rparr>)"
    obtain rest1 ls3 where u: "install_best rest bs1 ?ls = (rest1, ls3)"
      by (cases "install_best rest bs1 ?ls")
    from Cons.prems(1) bs Some u have r: "ps2 = plane\<lparr> plane_layer := Some l \<rparr> # rest1" "ls2 = ls3"
      by simp_all
    note ih = Cons.IH [OF u bs(2)]
    have out: "layer_output (?ls x) = layer_output (ls x)" for x by simp
    have pl: "layer_plane (?ls x) = Some pid \<Longrightarrow>
              layer_plane (ls x) = Some pid \<or> (x = l \<and> pid = plane_id plane)" for x pid
      by (cases "x = l") auto
    from ih have a: "list_all2 (\<lambda>(p, b) p2. plane_id p2 = plane_id p \<and> plane_type p2 = plane_type p \<and>
                 plane_layer p2 = (case b of Some l \<Rightarrow> Some l | None \<Rightarrow> plane_layer p))
        (zip rest bs1) rest1" by simp
    from ih have b2: "\<forall>x. layer_output (ls3 x) = layer_output (ls x)" unfolding out by simp
    from ih have c: "\<forall>x pid. layer_plane (ls3 x) = Some pid \<longrightarrow>
        layer_plane (?ls x) = Some pid \<or>
        (\<exists>(p, b) \<in> set (zip rest bs1). b = Some x \<and> plane_id p = pid)" by simp
    have c1: "\<forall>x pid. layer_plane (ls3 x) = Some pid \<longrightarrow>
        layer_plane (ls x) = Some pid \<or>
        (\<exists>(p, b) \<in> set (zip (plane # rest) (Some l # bs1)). b = Some x \<and> plane_id p = pid)"
    proof (intro allI impI)
      fix x pid
      assume "layer_plane (ls3 x) = Some pid"
      with c have "layer_plane (?ls x) = Some pid \<or>
        (\<exists>(p, b) \<in> set (zip rest bs1). b = Some x \<and> plane_id p = pid)" by blast
      then show "layer_plane (ls x) = Some pid \<or>
        (\<exists>(p, b) \<in> set (zip (plane # rest) (Some l # bs1)). b = Some x \<and> plane_id p = pid)"
        using pl [of x pid] by auto
    qed
    from a b2 c1 r bs Some show ?thesis by simp
  qed
qed

text \<open>
  \<open>comp_bound_primary\<close>: every plane bound to the output's composition layer (the
  plane's layer pointer, or the layer's plane pointer) is PRIMARY. \<open>bindings_wf\<close>: what
  the library maintains about the bindings of the composition layer.
\<close>

definition comp_bound_primary :: "liftoff \<Rightarrow> nat \<Rightarrow> bool" where
  "comp_bound_primary s output =
     (case comp_layer (outs s output) of
        None \<Rightarrow> True
      | Some c \<Rightarrow>
          (\<forall>p \<in> set (planes (dev s)).
             plane_layer p = Some c \<or> layer_plane (lays s c) = Some (plane_id p) \<longrightarrow>
             plane_type p = DRM_PLANE_TYPE_PRIMARY))"

definition bindings_wf :: "liftoff \<Rightarrow> nat \<Rightarrow> bool" where
  "bindings_wf s output =
     (distinct (map plane_id (planes (dev s))) \<and>
      (case comp_layer (outs s output) of
         None \<Rightarrow> True
       | Some c \<Rightarrow>
           layer_output (lays s c) = output \<and>
           (case layer_plane (lays s c) of
              None \<Rightarrow> True
            | Some pid \<Rightarrow> \<exists>p \<in> set (planes (dev s)). plane_id p = pid \<and> plane_layer p = Some c)))"

lemma realloc_comp_bound_primary:
  assumes wf: "distinct (map plane_id ps)"
    and c: "comp_layer (outs s7 output) = Some c" "layer_output (ls c) = output"
    and bound: "layer_plane (ls c) = None \<or> (\<exists>p \<in> set ps. plane_layer p = Some c)"
    and unbind: "unbind_planes output ps ls = (ps1, ls1)"
    and s7: "planes (dev s7) = ps1" "lays s7 = ls1"
    and search: "output_layers_choose True k s7 output ps1 (initial_step (length ps1))
                   (initial_result s7 output req2 flags) = Some (ret, st)"
    and install: "install_best ps1 (best st) ls1 = (ps2, ls2)"
    and p: "p \<in> set ps2" "plane_layer p = Some c \<or> layer_plane (ls2 c) = Some (plane_id p)"
  shows "plane_type p = DRM_PLANE_TYPE_PRIMARY"
proof -
  note u = unbind_planes_spec [OF unbind]
  from u have l1: "length ps1 = length ps" by (auto dest: list_all2_lengthD)
  from u have ids1: "map plane_id ps1 = map plane_id ps"
    by (auto simp: list_eq_iff_nth_eq list_all2_conv_all_nth)
  from u c have out1: "layer_output (ls1 c) = output" by simp
  from u have "layer_plane (ls1 c) = None \<or> layer_plane (ls1 c) = layer_plane (ls c)"
    and "(\<exists>p \<in> set ps. plane_layer p = Some c) \<and> layer_output (ls c) = output \<longrightarrow>
        layer_plane (ls1 c) = None"
    by blast+
  with c bound have none1: "layer_plane (ls1 c) = None" by auto
  have comp7: "is_comp_layer s7 c" using c out1 s7 by (simp add: is_comp_layer_def)
  have none: "comp_primary s7 ps1 (replicate (length ps1) None)"
    by (auto simp: comp_primary_def)
  have inv0: "search_inv s7 ps1 (initial_result s7 output req2 flags)"
    by (simp add: search_inv_def initial_result_def s7 none)
  have "search_inv s7 ps1 st"
    by (rule choose_comp_primary [OF search _ _ _ inv0])
       (simp_all add: initial_step_def none)
  then have lb: "length (best st) = length ps1" and cp: "comp_primary s7 ps1 (best st)"
    by (simp_all add: search_inv_def)
  note i = install_best_spec [OF install lb]
  from i lb have l2: "length ps2 = length ps1" by (auto dest: list_all2_lengthD)
  from i lb l2 have at: "plane_id (ps2 ! j) = plane_id (ps1 ! j) \<and> plane_type (ps2 ! j) = plane_type (ps1 ! j) \<and>
      plane_layer (ps2 ! j) = (case best st ! j of Some l \<Rightarrow> Some l | None \<Rightarrow> plane_layer (ps1 ! j))"
    if "j < length ps1" for j
    using that by (auto simp: list_all2_conv_all_nth)
  from p(1) obtain j where j: "j < length ps2" "p = ps2 ! j" by (auto simp: in_set_conv_nth)
  with l2 have j1: "j < length ps1" by simp
  have prim: "plane_type (ps1 ! n) = DRM_PLANE_TYPE_PRIMARY" if "n < length ps1" "best st ! n = Some c" for n
    using cp that lb comp7 by (auto simp: comp_primary_def)
  from p(2) show ?thesis
  proof
    assume "plane_layer p = Some c"
    with at [OF j1] j have "best st ! j = Some c \<or> plane_layer (ps1 ! j) = Some c"
      by (auto split: option.splits)
    then show ?thesis
    proof
      assume "best st ! j = Some c"
      from prim [OF j1 this] at [OF j1] j show ?thesis by simp
    next
      assume "plane_layer (ps1 ! j) = Some c"
      with u j1 l1 have "layer_output (ls c) \<noteq> output" by (auto simp: list_all2_conv_all_nth)
      with c show ?thesis by simp
    qed
  next
    assume "layer_plane (ls2 c) = Some (plane_id p)"
    moreover from i have "layer_plane (ls2 c) = Some (plane_id p) \<longrightarrow>
        layer_plane (ls1 c) = Some (plane_id p) \<or>
        (\<exists>(q, b) \<in> set (zip ps1 (best st)). b = Some c \<and> plane_id q = plane_id p)"
      by blast
    ultimately have "\<exists>(q, b) \<in> set (zip ps1 (best st)). b = Some c \<and> plane_id q = plane_id p"
      using none1 by simp
    then obtain n where n: "n < length ps1" "best st ! n = Some c" "plane_id (ps1 ! n) = plane_id p"
      by (auto simp: in_set_zip)
    from wf ids1 have d: "distinct (map plane_id ps1)" by simp
    from at [OF j1] j n have e: "map plane_id ps1 ! n = map plane_id ps1 ! j"
      using j1 by simp
    from n(1) j1 have "n < length (map plane_id ps1)" "j < length (map plane_id ps1)" by simp_all
    from nth_eq_iff_index_eq [OF d this] e have "n = j" by blast
    with prim [OF n(1) n(2)] at [OF j1] j show ?thesis by simp
  qed
qed

lemma layer_clean_is_clean: "layer_is_clean (layer_clean x)"
  by (simp add: layer_is_clean_def layer_clean_def list_all_iff)

lemma layer_clean_idem: "layer_clean (layer_clean x) = layer_clean x"
  by (simp add: layer_clean_def)

lemma fold_layer_clean_outs:
  "outs (fold (\<lambda>layer s2. s2\<lparr> lays := (lays s2)(layer := layer_clean (lays s2 layer)) \<rparr>) ls s) =
     outs s"
  by (induction ls arbitrary: s) simp_all

lemma fold_layer_clean:
  "lays (fold (\<lambda>layer s2. s2\<lparr> lays := (lays s2)(layer := layer_clean (lays s2 layer)) \<rparr>) ls s) l =
     (if l \<in> set ls then layer_clean (lays s l) else lays s l)"
  by (induction ls arbitrary: s) (simp_all add: layer_clean_idem)

lemma layers_mark_clean_clean:
  "out_layers (outs (layers_mark_clean s output) output) = out_layers (outs s output) \<and>
   \<not> layers_changed (outs (layers_mark_clean s output) output) \<and>
   (\<forall>l \<in> set (out_layers (outs s output)). layer_is_clean (lays (layers_mark_clean s output) l))"
  by (simp add: layers_mark_clean_def Let_def fold_layer_clean fold_layer_clean_outs
      layer_clean_is_clean)

lemma reuse_prev_alloc_ok:
  "reuse_prev_alloc k s output req flags = Some (0, rq, counter) \<Longrightarrow>
   \<not> layers_changed (outs s output)"
  by (auto simp: reuse_prev_alloc_def reuse_permitted_def split: if_splits)

lemma apply_ok_cases:
  assumes ok: "liftoff_rpi_output_apply k s0 output req flags = Some (0, s9, req9)"
  defines "s2 \<equiv> layers_fb_info_update k (layers_priority_update s0) output"
  shows "(\<exists>counter.
            reuse_prev_alloc k s2 output req flags = Some (0, req9, counter) \<and>
            s9 = s2\<lparr> dev := (dev s2)\<lparr> test_commit_counter := counter \<rparr>,
                    outs := (outs s2)(output := log_reuse (outs s2 output)) \<rparr>) \<or>
         (\<exists>s7 ps1 ls1 req2 st ps2 ls2.
            unbind_planes output (planes (dev s2)) (lays s2) = (ps1, ls1) \<and>
            planes (dev s7) = ps1 \<and> lays s7 = ls1 \<and>
            comp_layer (outs s7 output) = comp_layer (outs s2 output) \<and>
            output_layers_choose True k s7 output ps1 (initial_step (length ps1))
              (initial_result s7 output req2 flags) = Some (0, st) \<and>
            install_best ps1 (best st) ls1 = (ps2, ls2) \<and>
            planes (dev s9) = ps2 \<and>
            (\<forall>l. layer_plane (lays s9 l) = layer_plane (ls2 l)) \<and>
            comp_layer (outs s9 output) = comp_layer (outs s2 output) \<and>
            (\<forall>l. layer_output (lays s9 l) = layer_output (ls2 l)) \<and>
            (\<exists>s8. s9 = layers_mark_clean s8 output \<and>
                  out_layers (outs s8 output) = out_layers (outs s2 output)))"
proof -
  from ok obtain ret rq counter where
    r: "reuse_prev_alloc k s2 output req flags = Some (ret, rq, counter)"
    unfolding liftoff_rpi_output_apply_def s2_def Let_def
    by (cases "reuse_prev_alloc k (layers_fb_info_update k (layers_priority_update s0) output) output req flags") auto
  show ?thesis
  proof (cases "ret = 0")
    case True
    with ok r show ?thesis
      unfolding liftoff_rpi_output_apply_def s2_def [symmetric] Let_def by simp
  next
    case False
    let ?s3 = "s2\<lparr> dev := (dev s2)\<lparr> test_commit_counter := counter \<rparr> \<rparr>"
    let ?s4 = "?s3\<lparr> outs := (outs ?s3)(output := log_no_reuse (outs ?s3 output)) \<rparr>"
    let ?s5 = "?s4\<lparr> cand := fold (\<lambda>layer c. c(layer := layer_candidate_planes_reset ?s4))
                                         (out_layers (outs ?s4 output)) (cand ?s4) \<rparr>"
    let ?s6 = "?s5\<lparr> dev := (dev ?s5)\<lparr> test_commit_counter := 0 \<rparr> \<rparr>"
    obtain ps1 ls1 where u: "unbind_planes output (planes (dev s2)) (lays s2) = (ps1, ls1)"
      by (cases "unbind_planes output (planes (dev s2)) (lays s2)")
    let ?s7 = "?s6\<lparr> dev := (dev ?s6)\<lparr> planes := ps1 \<rparr>, lays := ls1 \<rparr>"
    from ok r False u have tail:
      "(case disable_planes k ?s7 (planes (dev ?s7)) rq of
          None \<Rightarrow> None
        | Some (ret1, req2) \<Rightarrow>
            if ret1 \<noteq> 0 then Some (ret1, ?s7, req2)
            else if \<not> malloc_ok k then Some (- ENOMEM, ?s7, req2)
            else
              let result = initial_result ?s7 output req2 flags;
                  step = initial_step (length (planes (dev ?s7)))
              in case output_layers_choose True k ?s7 output (planes (dev ?s7)) step result of
                   None \<Rightarrow> None
                 | Some (ret2, st) \<Rightarrow>
                     let s8 = ?s7\<lparr> dev := (dev ?s7)\<lparr> test_commit_counter :=
                                              ss_test_commit_counter st \<rparr>,
                                  cand := ss_cand st \<rparr>
                     in if ret2 \<noteq> 0 then Some (ret2, s8, res_req st)
                        else
                          let (planes2, lays2) =
                                install_best (planes (dev s8)) (best st) (lays s8);
                              s9 = s8\<lparr> dev := (dev s8)\<lparr> planes := planes2 \<rparr>,
                                       lays := lays2 \<rparr>
                          in case apply_current k s9 (res_req st) of
                               None \<Rightarrow> None
                             | Some (ret3, req3) \<Rightarrow>
                                 if ret3 \<noteq> 0 then Some (ret3, s9, req3)
                                 else Some (0, layers_mark_clean s9 output, req3)) =
       Some (0, s9, req9)"
      unfolding liftoff_rpi_output_apply_def s2_def [symmetric] Let_def by simp
    then obtain req2 where "disable_planes k ?s7 (planes (dev ?s7)) rq = Some (0, req2)" "malloc_ok k"
      by (auto split: option.splits if_splits)
    with tail obtain st where
      c: "output_layers_choose True k ?s7 output ps1 (initial_step (length ps1))
            (initial_result ?s7 output req2 flags) = Some (0, st)"
      by (auto simp: Let_def split: option.splits if_splits prod.splits)
    obtain ps2 ls2 where i: "install_best ps1 (best st) ls1 = (ps2, ls2)"
      by (cases "install_best ps1 (best st) ls1")
    let ?s8 = "?s7\<lparr> dev := (dev ?s7)\<lparr> test_commit_counter := ss_test_commit_counter st \<rparr>,
                     cand := ss_cand st \<rparr>"
    let ?s9 = "?s8\<lparr> dev := (dev ?s8)\<lparr> planes := ps2 \<rparr>, lays := ls2 \<rparr>"
    from tail \<open>disable_planes k ?s7 (planes (dev ?s7)) rq = Some (0, req2)\<close> \<open>malloc_ok k\<close> c i
    have s9: "s9 = layers_mark_clean ?s9 output"
      by (auto simp: Let_def split: option.splits if_splits)
    note mc = layers_mark_clean_bindings [of ?s9 "output"]
    have "planes (dev s9) = ps2" "\<forall>l. layer_plane (lays s9 l) = layer_plane (ls2 l)"
      "comp_layer (outs s9 output) = comp_layer (outs s2 output)"
      "\<forall>l. layer_output (lays s9 l) = layer_output (ls2 l)"
      unfolding s9 using mc by (simp_all add: log_no_reuse_def)
    moreover have "planes (dev ?s7) = ps1" "lays ?s7 = ls1"
      "comp_layer (outs ?s7 output) = comp_layer (outs s2 output)"
      by (simp_all add: log_no_reuse_def)
    moreover have "\<exists>s8. s9 = layers_mark_clean s8 output \<and>
                  out_layers (outs s8 output) = out_layers (outs s2 output)"
      using s9 by (intro exI [where x = ?s9]) (simp add: log_no_reuse_def)
    ultimately show ?thesis using u c i by blast
  qed
qed

lemma apply_alloc_marks_clean:
  assumes ok: "liftoff_rpi_output_apply k s0 output req flags = Some (0, s9, req9)"
    and nr: "map_option fst
               (reuse_prev_alloc k (layers_fb_info_update k (layers_priority_update s0) output)
                  output req flags) \<noteq> Some 0"
  shows "\<not> layers_changed (outs s9 output) \<and>
         (\<forall>l \<in> set (out_layers (outs s9 output)). layer_is_clean (lays s9 l))"
proof -
  from apply_ok_cases [OF ok] nr obtain s8 where "s9 = layers_mark_clean s8 output"
    by auto
  with layers_mark_clean_clean [of s8 "output"] show ?thesis by simp
qed


lemma realloc_bindings_wf:
  assumes unbind: "unbind_planes output ps ls = (ps1, ls1)"
    and bound: "layer_plane (ls c) = None \<or> (\<exists>p \<in> set ps. plane_layer p = Some c)"
    and own: "layer_output (ls c) = output"
    and lb: "length bs = length ps1"
    and install: "install_best ps1 bs ls1 = (ps2, ls2)"
  shows "map plane_id ps2 = map plane_id ps \<and> layer_output (ls2 c) = output \<and>
         (case layer_plane (ls2 c) of
            None \<Rightarrow> True
          | Some pid \<Rightarrow> \<exists>p \<in> set ps2. plane_id p = pid \<and> plane_layer p = Some c)"
proof -
  note u = unbind_planes_spec [OF unbind]
  from u have l1: "length ps1 = length ps" by (auto dest: list_all2_lengthD)
  from u have ids1: "map plane_id ps1 = map plane_id ps"
    by (auto simp: list_eq_iff_nth_eq list_all2_conv_all_nth)
  from u own have out1: "layer_output (ls1 c) = output" by simp
  from u have "layer_plane (ls1 c) = None \<or> layer_plane (ls1 c) = layer_plane (ls c)"
    and "(\<exists>p \<in> set ps. plane_layer p = Some c) \<and> layer_output (ls c) = output \<longrightarrow>
        layer_plane (ls1 c) = None"
    by blast+
  with own bound have none1: "layer_plane (ls1 c) = None" by auto
  note i = install_best_spec [OF install lb]
  from i lb have l2: "length ps2 = length ps1" by (auto dest: list_all2_lengthD)
  from i lb l2 have at: "plane_id (ps2 ! j) = plane_id (ps1 ! j) \<and>
      plane_layer (ps2 ! j) = (case bs ! j of Some l \<Rightarrow> Some l | None \<Rightarrow> plane_layer (ps1 ! j))"
    if "j < length ps1" for j
    using that by (auto simp: list_all2_conv_all_nth)
  from at l2 have ids2: "map plane_id ps2 = map plane_id ps1"
    by (auto simp: list_eq_iff_nth_eq)
  from i out1 have out2: "layer_output (ls2 c) = output" by simp
  have "\<exists>p \<in> set ps2. plane_id p = pid \<and> plane_layer p = Some c"
    if h: "layer_plane (ls2 c) = Some pid" for pid
  proof -
    from i have "layer_plane (ls2 c) = Some pid \<longrightarrow>
        layer_plane (ls1 c) = Some pid \<or>
        (\<exists>(q, b) \<in> set (zip ps1 bs). b = Some c \<and> plane_id q = pid)"
      by blast
    with h none1 have "\<exists>(q, b) \<in> set (zip ps1 bs). b = Some c \<and> plane_id q = pid" by simp
    then obtain n where n: "n < length ps1" "bs ! n = Some c" "plane_id (ps1 ! n) = pid"
      by (auto simp: in_set_zip)
    with at [OF n(1)] l2 show ?thesis
      by (intro bexI [where x = "ps2 ! n"]) simp_all
  qed
  with ids1 ids2 out2 show ?thesis by (simp split: option.splits)
qed

lemma apply_search_inv:
  assumes "output_layers_choose True k s7 output ps1 (initial_step (length ps1))
             (initial_result s7 output req2 flags) = Some (ret, st)"
    and "planes (dev s7) = ps1"
  shows "search_inv s7 ps1 st"
proof -
  have none: "comp_primary s7 ps1 (replicate (length ps1) None)"
    by (auto simp: comp_primary_def)
  have inv0: "search_inv s7 ps1 (initial_result s7 output req2 flags)"
    by (simp add: search_inv_def initial_result_def assms(2) none)
  show ?thesis
    by (rule choose_comp_primary [OF assms(1) _ _ _ inv0])
       (simp_all add: initial_step_def none)
qed

text \<open>
  C7. \<open>layer_plane_compatible_get\<close> refuses a composition layer on every plane that is
  not PRIMARY. Consequently, for a state in which plane ids are unique, the composition
  layer belongs to the output and its plane pointer, if set, is matched by that plane's
  layer pointer (\<open>bindings_wf\<close>), and in which the composition layer is bound to PRIMARY
  planes only unless \<open>layers_changed\<close> is set (which a change of the composition layer
  does): after every \<open>liftoff_rpi_output_apply\<close> that returns 0, every plane the
  composition layer is bound to, in either direction of the binding, is PRIMARY, and
  \<open>bindings_wf\<close> holds again.
\<close>

theorem apply_comp_layer_primary:
  assumes ok: "liftoff_rpi_output_apply k s output req flags = Some (0, s9, req9)"
    and wf: "bindings_wf s output"
    and pre: "layers_changed (outs s output) \<or> comp_bound_primary s output"
  shows "(\<forall>step layer plane.
            plane_type plane \<noteq> DRM_PLANE_TYPE_PRIMARY \<and> is_comp_layer s layer \<longrightarrow>
            \<not> layer_plane_compatible_get s step layer plane) \<and>
         (comp_bound_primary s9 output \<and> bindings_wf s9 output)"
proof
  show "\<forall>step layer plane.
            plane_type plane \<noteq> DRM_PLANE_TYPE_PRIMARY \<and> is_comp_layer s layer \<longrightarrow>
            \<not> layer_plane_compatible_get s step layer plane"
    using compatible_comp_primary by blast
next
  define s2 where "s2 = layers_fb_info_update k (layers_priority_update s) output"
  have sb: "same_bindings s s2"
    unfolding s2_def
    by (rule same_bindings_trans [OF layers_priority_update_bindings layers_fb_info_update_bindings])
  from apply_ok_cases [OF ok, folded s2_def]
  consider (reuse) counter where
      "reuse_prev_alloc k s2 output req flags = Some (0, req9, counter)"
      "s9 = s2\<lparr> dev := (dev s2)\<lparr> test_commit_counter := counter \<rparr>,
              outs := (outs s2)(output := log_reuse (outs s2 output)) \<rparr>"
    | (alloc) s7 ps1 ls1 req2 st ps2 ls2 where
      "unbind_planes output (planes (dev s2)) (lays s2) = (ps1, ls1)"
      "planes (dev s7) = ps1" "lays s7 = ls1"
      "comp_layer (outs s7 output) = comp_layer (outs s2 output)"
      "output_layers_choose True k s7 output ps1 (initial_step (length ps1))
         (initial_result s7 output req2 flags) = Some (0, st)"
      "install_best ps1 (best st) ls1 = (ps2, ls2)"
      "planes (dev s9) = ps2"
      "\<forall>l. layer_plane (lays s9 l) = layer_plane (ls2 l)"
      "comp_layer (outs s9 output) = comp_layer (outs s2 output)"
      "\<forall>l. layer_output (lays s9 l) = layer_output (ls2 l)"
    by blast
  then show "comp_bound_primary s9 output \<and> bindings_wf s9 output"
  proof cases
    case reuse
    from reuse_prev_alloc_ok [OF reuse(1)] sb have "\<not> layers_changed (outs s output)"
      by (simp add: same_bindings_def)
    with pre have "comp_bound_primary s output" by simp
    moreover from sb reuse(2) have "planes (dev s9) = planes (dev s)"
      "comp_layer (outs s9 output) = comp_layer (outs s output)"
      "\<forall>l. layer_plane (lays s9 l) = layer_plane (lays s l)"
      "\<forall>l. layer_output (lays s9 l) = layer_output (lays s l)"
      by (simp_all add: same_bindings_def log_reuse_def)
    ultimately have "comp_bound_primary s9 output = comp_bound_primary s output"
      "bindings_wf s9 output = bindings_wf s output"
      by (simp_all add: comp_bound_primary_def bindings_wf_def cong: option.case_cong)
    with wf \<open>comp_bound_primary s output\<close> show ?thesis by simp
  next
    case alloc
    from wf sb have d: "distinct (map plane_id (planes (dev s2)))"
      by (simp add: bindings_wf_def same_bindings_def)
    show ?thesis
    proof (cases "comp_layer (outs s output)")
      case None
      with sb alloc(9) have "comp_layer (outs s9 output) = None" by (simp add: same_bindings_def)
      moreover from search_inv_def apply_search_inv [OF alloc(5) alloc(2)]
      have lb: "length (best st) = length ps1" by simp
      from unbind_planes_spec [OF alloc(1)] install_best_spec [OF alloc(6) lb] lb
      have "map plane_id ps2 = map plane_id (planes (dev s2))"
        by (auto simp: list_eq_iff_nth_eq list_all2_conv_all_nth)
      ultimately show ?thesis
        using d alloc(7) by (simp add: comp_bound_primary_def bindings_wf_def)
    next
      case (Some c)
      with sb have c2: "comp_layer (outs s2 output) = Some c" by (simp add: same_bindings_def)
      from wf Some sb have own: "layer_output (lays s2 c) = output"
        and bound: "layer_plane (lays s2 c) = None \<or>
                    (\<exists>p \<in> set (planes (dev s2)). plane_layer p = Some c)"
        by (auto simp: bindings_wf_def same_bindings_def split: option.splits)
      have "plane_type p = DRM_PLANE_TYPE_PRIMARY"
        if "p \<in> set ps2" "plane_layer p = Some c \<or> layer_plane (ls2 c) = Some (plane_id p)" for p
        using realloc_comp_bound_primary [OF d _ own bound alloc(1) alloc(2) alloc(3) alloc(5)
            alloc(6) that] alloc(4) c2 by simp
      with alloc(7) alloc(8) alloc(9) c2 have b: "comp_bound_primary s9 output"
        by (auto simp: comp_bound_primary_def)
      from search_inv_def apply_search_inv [OF alloc(5) alloc(2)]
      have lb: "length (best st) = length ps1" by simp
      from realloc_bindings_wf [OF alloc(1) bound own lb alloc(6)] d alloc(7) alloc(8) alloc(9)
        alloc(10) c2
      have "bindings_wf s9 output"
        by (simp add: bindings_wf_def split: option.splits)
      with b show ?thesis by simp
    qed
  qed
qed

text \<open>
  One PRIMARY plane, the layers 0 and 1 and the composition layer 2: only one layer fits,
  so the composition layer is what ends up on the plane.
\<close>

definition example_composed :: liftoff where
  "example_composed =
     \<lparr> dev = example_device [example_primary],
       outs = (\<lambda>_. (example_output [0, 1, 2])\<lparr> layers_changed := True, comp_layer := Some 2 \<rparr>),
       lays = (\<lambda>l. (example_layer 0
                       [example_property LIFTOFF_RPI_PROP_FB_ID (word_of_nat (Suc l)) 0])
                     \<lparr> changed := True \<rparr>),
       cand = (\<lambda>_. [0, 0, 0]) \<rparr>"

lemma example_composed_apply:
  "map_option (\<lambda>(ret, s9, req9). (ret, layer_plane (lays s9 2), map plane_layer (planes (dev s9))))
     (liftoff_rpi_output_apply example_drm example_composed 0 [] 0) =
   Some (0, Some 32, [Some 2])"
  by (simp add: layer_defs plane_defs alloc_defs example_defs example_composed_def Let_def)

theorem apply_comp_layer_primary_witness:
  "\<exists>s9 req9.
     liftoff_rpi_output_apply example_drm example_composed 0 [] 0 = Some (0, s9, req9) \<and>
     bindings_wf example_composed 0 \<and>
     layers_changed (outs example_composed 0) \<and>
     layer_plane (lays s9 2) = Some 32 \<and>
     comp_bound_primary s9 0 \<and> bindings_wf s9 0"
proof -
  from example_composed_apply obtain s9 req9 where
    ok: "liftoff_rpi_output_apply example_drm example_composed 0 [] 0 = Some (0, s9, req9)"
    and b: "layer_plane (lays s9 2) = Some 32"
    by auto
  have wf: "bindings_wf example_composed 0"
    by (simp add: bindings_wf_def example_composed_def example_device_def example_primary_def
        example_plane_def example_output_def example_layer_def)
  have ch: "layers_changed (outs example_composed 0)"
    by (simp add: example_composed_def example_output_def)
  from apply_comp_layer_primary [OF ok wf] ch ok wf b show ?thesis by blast
qed

end
